theory Spec2Isabelle
  imports Main "HOL-Library.Word"
begin

section \<open>IRWP v2.5 STM32 firmware: data model\<close>

text \<open>
  The development embeds \<^verbatim>\<open>stm32_firmware.cpp\<close>. Every global variable of the
  firmware is a field of the record \<open>firmware\<close>; every function of the firmware is a
  function from \<open>firmware\<close> to \<open>firmware\<close> (or to an \<open>outcome\<close> where the
  C++ function may fail to return). The motion sensor \<^verbatim>\<open>mpu\<close> and the target record
  \<^verbatim>\<open>currentTarget\<close> are written once in \<^verbatim>\<open>setup\<close> and read by no function
  of the file, so they are not part of the state.
\<close>

type_synonym u8 = "8 word"
type_synonym u16 = "16 word"
type_synonym u32 = "32 word"

datatype SystemState = STATE_IDLE | STATE_ARMED | STATE_CYCLING | STATE_EMERGENCY

text \<open>The integer behind each enumerator, as \<^verbatim>\<open>Serial.print(currentState)\<close> shows it.\<close>

fun state_code :: "SystemState \<Rightarrow> int" where
  "state_code STATE_IDLE = 0"
| "state_code STATE_ARMED = 1"
| "state_code STATE_CYCLING = 2"
| "state_code STATE_EMERGENCY = 99"

record AttackPhase =
  ledGroup :: u8
  durationMs :: u16
  intensity :: u8

text \<open>
  \<^verbatim>\<open>AttackPhase phases[20]\<close> is a list holding the leading slots of the array; a slot
  past the end of the list is zero, as aggregate initialisation leaves it. A read at an
  index of 20 or more is outside the array and is an error of the model (\<open>None\<close>).
\<close>

record AttackPattern =
  name :: string
  phaseCount :: u8
  phases :: "AttackPhase list"
  repeatCount :: u8

definition zero_phase :: AttackPhase where
  "zero_phase = \<lparr>ledGroup = 0, durationMs = 0, intensity = 0\<rparr>"

definition PHASE_CAPACITY :: nat where
  "PHASE_CAPACITY = 20"

definition phase_at :: "AttackPattern \<Rightarrow> u8 \<Rightarrow> AttackPhase option" where
  "phase_at p i =
     (if unat i < PHASE_CAPACITY
      then Some (if unat i < length (phases p) then phases p ! unat i else zero_phase)
      else None)"

definition mk_phase :: "u8 \<Rightarrow> u16 \<Rightarrow> u8 \<Rightarrow> AttackPhase" where
  "mk_phase g d v = \<lparr>ledGroup = g, durationMs = d, intensity = v\<rparr>"

text \<open>
  The built-in catalog. The third entry of the source carries a fifth initialiser
  (\<^verbatim>\<open>true\<close>) for which the struct has no member; the four documented members are kept.
\<close>

definition PROVEN_PATTERNS :: "AttackPattern list" where
  "PROVEN_PATTERNS =
    [ \<lparr>name = ''AGC_Lock_5_Second'', phaseCount = 9,
        phases = [mk_phase 4 50 255, mk_phase 4 50 0, mk_phase 4 50 255, mk_phase 4 50 0,
                  mk_phase 4 50 255, mk_phase 4 50 0, mk_phase 4 50 255, mk_phase 4 50 0,
                  mk_phase 4 5000 255],
        repeatCount = 1\<rparr>,
      \<lparr>name = ''Sensor_Saturation_Blast'', phaseCount = 1,
        phases = [mk_phase 4 5000 255], repeatCount = 1\<rparr>,
      \<lparr>name = ''Rolling_Shutter_Flicker'', phaseCount = 1,
        phases = [mk_phase 5 100 200], repeatCount = 3\<rparr> ]"

definition PATTERN_COUNT :: nat where
  "PATTERN_COUNT = length PROVEN_PATTERNS"

subsection \<open>Pins, serial port and the firmware state\<close>

datatype pin = HAT_PIN | HOODIE_PIN | PANTS_PIN | SHOES_PIN | RELAY_PIN | STATUS_LED_PIN

text \<open>What an output pin carries: a level set by \<^verbatim>\<open>digitalWrite\<close> or a PWM duty set by
  \<^verbatim>\<open>analogWrite\<close>.\<close>

datatype level = Digital bool | Pwm u8

fun is_off :: "level \<Rightarrow> bool" where
  "is_off (Digital b) = (\<not> b)"
| "is_off (Pwm v) = (v = 0)"

text \<open>Every write to a pin and every print on the serial port, in program order.\<close>

datatype io_event =
    DigitalWrite pin bool
  | AnalogWrite pin u8
  | SerialPrint string
  | SerialPrintNum int
  | SerialPrintln string
  | SerialPrintlnNum int

text \<open>The level of each output pin, one field per pin.\<close>

record pins =
  hat :: level
  hoodie :: level
  pants :: level
  shoes :: level
  relay :: level
  status_led :: level

fun read_pin :: "pins \<Rightarrow> pin \<Rightarrow> level" where
  "read_pin ps HAT_PIN = hat ps"
| "read_pin ps HOODIE_PIN = hoodie ps"
| "read_pin ps PANTS_PIN = pants ps"
| "read_pin ps SHOES_PIN = shoes ps"
| "read_pin ps RELAY_PIN = relay ps"
| "read_pin ps STATUS_LED_PIN = status_led ps"

fun write_pin :: "pin \<Rightarrow> level \<Rightarrow> pins \<Rightarrow> pins" where
  "write_pin HAT_PIN v ps = ps\<lparr>hat := v\<rparr>"
| "write_pin HOODIE_PIN v ps = ps\<lparr>hoodie := v\<rparr>"
| "write_pin PANTS_PIN v ps = ps\<lparr>pants := v\<rparr>"
| "write_pin SHOES_PIN v ps = ps\<lparr>shoes := v\<rparr>"
| "write_pin RELAY_PIN v ps = ps\<lparr>relay := v\<rparr>"
| "write_pin STATUS_LED_PIN v ps = ps\<lparr>status_led := v\<rparr>"

record firmware =
  currentState :: SystemState
  safetyEngaged :: bool
  emergencyTriggered :: bool
  currentPattern :: AttackPattern
  currentPhaseIndex :: u8
  cycleStartTime :: u32
  globalCycleCount :: u32
  outputs :: pins
  io :: "io_event list"

text \<open>
  A call either returns, or never returns (\<^verbatim>\<open>emergencyHandler\<close> ends in
  \<^verbatim>\<open>while(1)\<close>; the state carried is the one at the entry of that loop, which
  afterwards only toggles the status LED), or reads \<^verbatim>\<open>phases\<close> outside its 20 slots.
\<close>

datatype outcome = Returns firmware | NeverReturns firmware | OutOfBounds

definition level_of :: "firmware \<Rightarrow> pin \<Rightarrow> level" where
  "level_of fw p = read_pin (outputs fw) p"

definition channels_off :: "firmware \<Rightarrow> bool" where
  "channels_off fw =
     (is_off (level_of fw HAT_PIN) \<and> is_off (level_of fw HOODIE_PIN) \<and>
      is_off (level_of fw PANTS_PIN) \<and> is_off (level_of fw SHOES_PIN))"

definition digitalWrite :: "pin \<Rightarrow> bool \<Rightarrow> firmware \<Rightarrow> firmware" where
  "digitalWrite p v fw =
     fw\<lparr>outputs := write_pin p (Digital v) (outputs fw), io := io fw @ [DigitalWrite p v]\<rparr>"

definition analogWrite :: "pin \<Rightarrow> u8 \<Rightarrow> firmware \<Rightarrow> firmware" where
  "analogWrite p v fw =
     fw\<lparr>outputs := write_pin p (Pwm v) (outputs fw), io := io fw @ [AnalogWrite p v]\<rparr>"

definition emit :: "io_event \<Rightarrow> firmware \<Rightarrow> firmware" where
  "emit e fw = fw\<lparr>io := io fw @ [e]\<rparr>"

section \<open>The Arduino String operations the firmware calls\<close>

text \<open>
  \<^verbatim>\<open>String\<close> comes from the Arduino core, not from this repository. The functions
  below follow its \<^verbatim>\<open>WString.cpp\<close>: \<^verbatim>\<open>trim\<close>, \<^verbatim>\<open>startsWith\<close>,
  \<^verbatim>\<open>substring\<close> (unsigned bounds, swapped when out of order, clipped to the length),
  \<^verbatim>\<open>indexOf\<close> (\<open>-1\<close> when absent) and \<^verbatim>\<open>toInt\<close> (C \<^verbatim>\<open>atol\<close>: leading white
  space, an optional sign, then digits; \<open>0\<close> when there is no digit; saturating at the
  range of a 32-bit \<^verbatim>\<open>long\<close>).
\<close>

definition isspace :: "char \<Rightarrow> bool" where
  "isspace c = ((of_char c :: nat) = 32 \<or> (9 \<le> (of_char c :: nat) \<and> (of_char c :: nat) \<le> 13))"

definition isdigit :: "char \<Rightarrow> bool" where
  "isdigit c = (48 \<le> (of_char c :: nat) \<and> (of_char c :: nat) \<le> 57)"

definition trim :: "string \<Rightarrow> string" where
  "trim s = rev (dropWhile isspace (rev (dropWhile isspace s)))"

definition startsWith :: "string \<Rightarrow> string \<Rightarrow> bool" where
  "startsWith s p = (length p \<le> length s \<and> take (length p) s = p)"

text \<open>An \<^verbatim>\<open>int\<close> passed where \<^verbatim>\<open>unsigned int\<close> is expected.\<close>

definition to_unsigned :: "int \<Rightarrow> nat" where
  "to_unsigned i = nat (i mod 2 ^ 32)"

definition substring :: "string \<Rightarrow> nat \<Rightarrow> nat \<Rightarrow> string" where
  "substring s left right =
     (let l = (if left > right then right else left);
          r = (if left > right then left else right)
      in if l \<ge> length s then []
         else take ((if r > length s then length s else r) - l) (drop l s))"

definition substring_from :: "string \<Rightarrow> nat \<Rightarrow> string" where
  "substring_from s left = substring s left (length s)"

fun strchr :: "string \<Rightarrow> char \<Rightarrow> nat option" where
  "strchr [] c = None"
| "strchr (x # xs) c = (if x = c then Some 0 else map_option Suc (strchr xs c))"

fun strstr :: "string \<Rightarrow> string \<Rightarrow> nat option" where
  "strstr [] p = (if p = [] then Some 0 else None)"
| "strstr (x # xs) p =
     (if take (length p) (x # xs) = p then Some 0 else map_option Suc (strstr xs p))"

definition indexOfChar :: "string \<Rightarrow> char \<Rightarrow> nat \<Rightarrow> int" where
  "indexOfChar s c fromIndex =
     (if fromIndex \<ge> length s then - 1
      else case strchr (drop fromIndex s) c of
             None \<Rightarrow> - 1
           | Some k \<Rightarrow> int (fromIndex + k))"

definition indexOfStr :: "string \<Rightarrow> string \<Rightarrow> int" where
  "indexOfStr s p =
     (if 0 \<ge> length s then - 1
      else case strstr s p of None \<Rightarrow> - 1 | Some k \<Rightarrow> int k)"

fun digits_value :: "int \<Rightarrow> string \<Rightarrow> int" where
  "digits_value acc [] = acc"
| "digits_value acc (c # cs) =
     (if isdigit c then digits_value (acc * 10 + (int (of_char c) - 48)) cs else acc)"

definition clamp_long :: "int \<Rightarrow> int" where
  "clamp_long v = max (- (2 ^ 31)) (min (2 ^ 31 - 1) v)"

definition toInt :: "string \<Rightarrow> int" where
  "toInt s =
     (case dropWhile isspace s of
        [] \<Rightarrow> 0
      | c # cs \<Rightarrow>
          if c = CHR ''-'' then clamp_long (- digits_value 0 cs)
          else if c = CHR ''+'' then clamp_long (digits_value 0 cs)
          else clamp_long (digits_value 0 (c # cs)))"

section \<open>The firmware functions\<close>

text \<open>\<^verbatim>\<open>allLEDsOff\<close>: the four channels low, then the relay low.\<close>

definition allLEDsOff :: "firmware \<Rightarrow> firmware" where
  "allLEDsOff fw =
     digitalWrite RELAY_PIN False
       (digitalWrite SHOES_PIN False
         (digitalWrite PANTS_PIN False
           (digitalWrite HOODIE_PIN False
             (digitalWrite HAT_PIN False fw))))"

text \<open>
  One pass of the body of the \<^verbatim>\<open>for\<close> loop of \<^verbatim>\<open>flickerAll\<close>. The products
  \<^verbatim>\<open>(i % 2) * intensity\<close> are computed in \<^verbatim>\<open>int\<close>; \<^verbatim>\<open>digitalWrite\<close> drives the
  pin high when the value is not zero. \<^verbatim>\<open>delayMicroseconds\<close> changes no state.
\<close>

definition flickerBody :: "u8 \<Rightarrow> u8 \<Rightarrow> firmware \<Rightarrow> firmware" where
  "flickerBody i v fw =
     digitalWrite SHOES_PIN (((uint i + 3) mod 2) * uint v \<noteq> 0)
       (digitalWrite PANTS_PIN (((uint i + 2) mod 2) * uint v \<noteq> 0)
         (digitalWrite HOODIE_PIN (((uint i + 1) mod 2) * uint v \<noteq> 0)
           (digitalWrite HAT_PIN ((uint i mod 2) * uint v \<noteq> 0) fw)))"

function flickerLoop :: "u8 \<Rightarrow> u8 \<Rightarrow> firmware \<Rightarrow> firmware" where
  "flickerLoop i v fw = (if i < 50 then flickerLoop (i + 1) v (flickerBody i v fw) else fw)"
  by pat_completeness auto
termination
proof (relation "measure (\<lambda>(i, v, fw). 50 - unat i)")
  show "wf (measure (\<lambda>(i :: u8, v :: u8, fw :: firmware). 50 - unat i))"
    by simp
next
  fix i v :: u8 and fw :: firmware
  assume "i < 50"
  then have "unat i < 50"
    by (simp add: word_less_nat_alt)
  moreover from this have "unat (i + 1) = unat i + 1"
    by (simp add: unat_word_ariths)
  ultimately show "((i + 1, v, flickerBody i v fw), (i, v, fw))
      \<in> measure (\<lambda>(i, v, fw). 50 - unat i)"
    by simp
qed

definition flickerAll :: "u8 \<Rightarrow> firmware \<Rightarrow> firmware" where
  "flickerAll v fw = flickerLoop 0 v fw"

text \<open>\<^verbatim>\<open>setLEDGroup\<close>: the relay first, then the \<^verbatim>\<open>switch\<close>, which has no default.\<close>

definition setLEDGroup :: "u8 \<Rightarrow> u8 \<Rightarrow> firmware \<Rightarrow> firmware" where
  "setLEDGroup g v fw =
     (let fw1 = digitalWrite RELAY_PIN True fw
      in if g = 0 then analogWrite HAT_PIN v fw1
         else if g = 1 then analogWrite HOODIE_PIN v fw1
         else if g = 2 then analogWrite PANTS_PIN v fw1
         else if g = 3 then analogWrite SHOES_PIN v fw1
         else if g = 4 then
           analogWrite SHOES_PIN v
             (analogWrite PANTS_PIN v
               (analogWrite HOODIE_PIN v
                 (analogWrite HAT_PIN v fw1)))
         else if g = 5 then flickerAll v fw1
         else fw1)"

text \<open>
  \<^verbatim>\<open>emergencyHandler\<close> latches the flag, enters \<^verbatim>\<open>STATE_EMERGENCY\<close>, switches
  everything off, reports, lights the status LED and then blinks it forever.
\<close>

definition emergencyHandler :: "firmware \<Rightarrow> outcome" where
  "emergencyHandler fw =
     NeverReturns
       (digitalWrite STATUS_LED_PIN True
         (emit (SerialPrintln ''EMERGENCY_STOPPED'')
           (allLEDsOff (fw\<lparr>emergencyTriggered := True, currentState := STATE_EMERGENCY\<rparr>))))"

definition emergencyISR :: "firmware \<Rightarrow> firmware" where
  "emergencyISR fw = fw\<lparr>emergencyTriggered := True\<rparr>"

definition sendStatusJson :: "firmware \<Rightarrow> firmware" where
  "sendStatusJson fw =
     emit (SerialPrint '',\"platform\":\"STM32\"}\<newline>'')
       (emit (SerialPrintNum (uint (globalCycleCount fw)))
         (emit (SerialPrint '',\"cycle\":'')
           (emit (SerialPrintNum (if currentState fw \<noteq> STATE_IDLE then 1 else 0))
             (emit (SerialPrint '',\"armed\":'')
               (emit (SerialPrintNum (if safetyEngaged fw then 1 else 0))
                 (emit (SerialPrint '',\"safety\":'')
                   (emit (SerialPrintNum (state_code (currentState fw)))
                     (emit (SerialPrint ''{\"state\":'') fw))))))))"

text \<open>\<^verbatim>\<open>executeCurrentPhase\<close>, with the array read made explicit.\<close>

definition executeCurrentPhase :: "firmware \<Rightarrow> firmware option" where
  "executeCurrentPhase fw =
     (case phase_at (currentPattern fw) (currentPhaseIndex fw) of
        None \<Rightarrow> None
      | Some phase \<Rightarrow> Some (setLEDGroup (ledGroup phase) (intensity phase) fw))"

text \<open>
  \<^verbatim>\<open>processAutonomousCycle\<close>; \<open>now\<close> is what \<^verbatim>\<open>millis()\<close> returns. The difference
  \<^verbatim>\<open>now - cycleStartTime\<close> is unsigned 32-bit and wraps; the 16-bit duration is widened for
  the comparison. \<^verbatim>\<open>currentPhaseIndex++\<close> is 8-bit, \<^verbatim>\<open>globalCycleCount++\<close> 32-bit.
\<close>

definition processAutonomousCycle :: "u32 \<Rightarrow> firmware \<Rightarrow> outcome" where
  "processAutonomousCycle now fw =
     (if currentState fw \<noteq> STATE_CYCLING then Returns fw
      else case phase_at (currentPattern fw) (currentPhaseIndex fw) of
        None \<Rightarrow> OutOfBounds
      | Some phase \<Rightarrow>
          if now - cycleStartTime fw \<ge> ucast (durationMs phase) then
            (case executeCurrentPhase fw of
               None \<Rightarrow> OutOfBounds
             | Some fw1 \<Rightarrow>
                 let fw2 = fw1\<lparr>currentPhaseIndex := currentPhaseIndex fw1 + 1\<rparr>;
                     fw3 = (if unat (currentPhaseIndex fw2) \<ge> unat (phaseCount (currentPattern fw2))
                            then emit (SerialPrintlnNum (uint (globalCycleCount fw2 + 1)))
                                   (emit (SerialPrint ''CYCLE_COMPLETE:'')
                                     (fw2\<lparr>currentPhaseIndex := 0,
                                          globalCycleCount := globalCycleCount fw2 + 1\<rparr>))
                            else fw2)
                 in Returns (fw3\<lparr>cycleStartTime := now\<rparr>))
          else Returns fw)"

text \<open>The two payload keys of \<^verbatim>\<open>SET_GROUP\<close>, with their double quotes.\<close>

definition key_group :: string where
  "key_group = ''\"group\":''"

definition key_intensity :: string where
  "key_intensity = ''\"intensity\":''"

text \<open>
  The \<^verbatim>\<open>SET_GROUP\<close> branch. The offsets 8 and 11 are the source's; every \<^verbatim>\<open>int\<close>
  handed to \<^verbatim>\<open>substring\<close> or \<^verbatim>\<open>indexOf\<close> becomes \<^verbatim>\<open>unsigned\<close>; the two parsed
  \<^verbatim>\<open>int\<close>s are narrowed to \<^verbatim>\<open>uint8_t\<close> by the call of \<^verbatim>\<open>setLEDGroup\<close>.
\<close>

definition setGroupCommand :: "string \<Rightarrow> firmware \<Rightarrow> firmware" where
  "setGroupCommand cmd fw =
     (let group_start = indexOfChar cmd CHR '':'' 0 + 1;
          json_str = substring_from cmd (to_unsigned group_start);
          g_idx = indexOfStr json_str key_group;
          i_idx = indexOfStr json_str key_intensity;
          fw1 = (if g_idx > 0 \<and> i_idx > 0 then
                   let grp = toInt (substring json_str (to_unsigned (g_idx + 8))
                                (to_unsigned (indexOfChar json_str CHR '','' (to_unsigned g_idx))));
                       val = toInt (substring json_str (to_unsigned (i_idx + 11))
                                (to_unsigned (indexOfChar json_str CHR ''}'' (to_unsigned i_idx))))
                   in setLEDGroup (word_of_int grp) (word_of_int val) fw
                 else fw)
      in emit (SerialPrintln ''GROUP_SET'') fw1)"

text \<open>
  The \<^verbatim>\<open>LOAD_PATTERN\<close> branch: \<^verbatim>\<open>toInt\<close> of everything after the 13 characters of the
  prefix, narrowed to \<^verbatim>\<open>uint8_t\<close>, compared with \<^verbatim>\<open>PATTERN_COUNT\<close>; \<^verbatim>\<open>memcpy\<close>
  replaces \<^verbatim>\<open>currentPattern\<close> and nothing else.
\<close>

definition loadPatternCommand :: "string \<Rightarrow> firmware \<Rightarrow> firmware" where
  "loadPatternCommand cmd fw =
     (let idx = (word_of_int (toInt (substring_from cmd 13)) :: u8)
      in if unat idx < PATTERN_COUNT then
           (let fw1 = fw\<lparr>currentPattern := PROVEN_PATTERNS ! unat idx\<rparr>
            in emit (SerialPrintln (name (currentPattern fw1)))
                 (emit (SerialPrint ''PATTERN_LOADED:'') fw1))
         else fw)"

text \<open>\<^verbatim>\<open>processCommand\<close>; \<open>now\<close> is what \<^verbatim>\<open>millis()\<close> returns in \<^verbatim>\<open>START_CYCLE\<close>.\<close>

definition processCommand :: "u32 \<Rightarrow> string \<Rightarrow> firmware \<Rightarrow> outcome" where
  "processCommand now cmd fw =
     (if cmd = ''ARM'' then
        Returns (emit (SerialPrintln ''ACK_ARMED'') (fw\<lparr>currentState := STATE_ARMED\<rparr>))
      else if cmd = ''DISARM'' then
        Returns (emit (SerialPrintln ''ACK_DISARMED'')
                  (allLEDsOff (fw\<lparr>currentState := STATE_IDLE\<rparr>)))
      else if cmd = ''START_CYCLE'' then
        (if currentState fw = STATE_ARMED then
           Returns (emit (SerialPrintln ''CYCLE_STARTED'')
                     (fw\<lparr>currentState := STATE_CYCLING, currentPhaseIndex := 0,
                         cycleStartTime := now\<rparr>))
         else Returns fw)
      else if cmd = ''STOP_CYCLE'' then
        Returns (emit (SerialPrintln ''CYCLE_STOPPED'') (fw\<lparr>currentState := STATE_ARMED\<rparr>))
      else if startsWith cmd ''LOAD_PATTERN:'' then Returns (loadPatternCommand cmd fw)
      else if startsWith cmd ''SET_GROUP:'' then Returns (setGroupCommand cmd fw)
      else if cmd = ''EMERGENCY'' then emergencyHandler fw
      else if cmd = ''GET_STATUS'' then Returns (sendStatusJson fw)
      else if cmd = ''IDENTIFY'' then Returns (emit (SerialPrintln ''IRWP_STM32_v2.5'') fw)
      else if cmd = ''ALL_OFF'' then Returns (allLEDsOff fw)
      else Returns fw)"

text \<open>
  \<^verbatim>\<open>processSerialCommand\<close>; \<open>rx\<close> is \<open>None\<close> when \<^verbatim>\<open>Serial.available()\<close> is
  zero, and otherwise the characters \<^verbatim>\<open>readStringUntil\<close> hands over.
\<close>

definition processSerialCommand :: "u32 \<Rightarrow> string option \<Rightarrow> firmware \<Rightarrow> outcome" where
  "processSerialCommand now rx fw =
     (case rx of None \<Rightarrow> Returns fw | Some line \<Rightarrow> processCommand now (trim line) fw)"

text \<open>What one pass of \<^verbatim>\<open>loop\<close> reads from the outside.\<close>

record loop_input =
  safety_pin_low :: bool
  serial_line :: "string option"
  millis_command :: u32
  millis_tick :: u32

definition loop :: "loop_input \<Rightarrow> firmware \<Rightarrow> outcome" where
  "loop inp fw =
     (let fw1 = fw\<lparr>safetyEngaged := safety_pin_low inp\<rparr>
      in if emergencyTriggered fw1 \<or> \<not> safetyEngaged fw1 then
           (if currentState fw1 \<noteq> STATE_IDLE then emergencyHandler fw1 else Returns fw1)
         else case processSerialCommand (millis_command inp) (serial_line inp) fw1 of
                Returns fw2 \<Rightarrow> processAutonomousCycle (millis_tick inp) fw2
              | NeverReturns fw2 \<Rightarrow> NeverReturns fw2
              | OutOfBounds \<Rightarrow> OutOfBounds)"

text \<open>
  \<^verbatim>\<open>setup()\<close> (named \<open>setup_fw\<close> here): the globals as their initialisers
  leave them, the banner printed, the relay written low, \<^verbatim>\<open>currentPattern\<close>
  overwritten by whatever \<^verbatim>\<open>EEPROM.get(128, currentPattern)\<close> finds (that record is
  the parameter), the status LED written low and the second line printed. Output pins
  are low after \<^verbatim>\<open>pinMode\<close>.
\<close>

definition setup_fw :: "AttackPattern \<Rightarrow> firmware" where
  "setup_fw stored =
     emit (SerialPrintln ''STM32 Firmware Initialized'')
       (digitalWrite STATUS_LED_PIN False
         ((digitalWrite RELAY_PIN False
            (emit (SerialPrintln ''\<newline>IRWP v2.5 STM32 Firmware'')
              \<lparr>currentState = STATE_IDLE, safetyEngaged = False, emergencyTriggered = False,
               currentPattern = \<lparr>name = [], phaseCount = 0, phases = [], repeatCount = 0\<rparr>,
               currentPhaseIndex = 0, cycleStartTime = 0, globalCycleCount = 0,
               outputs = \<lparr>hat = Digital False, hoodie = Digital False, pants = Digital False,
                          shoes = Digital False, relay = Digital False,
                          status_led = Digital False\<rparr>,
               io = []\<rparr>))
          \<lparr>currentPattern := stored\<rparr>))"

section \<open>Executions\<close>

text \<open>
  The emergency interrupt writes one flag, which the main program reads only at the top
  of \<^verbatim>\<open>loop\<close>; so an interrupt during a pass has the effect of one right after the
  pass, and an execution is a sequence of passes and interrupts. After a call that never
  returns there are no more passes; the interrupt can still fire.
\<close>

datatype event = EmergencyIRQ | LoopPass loop_input

fun step :: "outcome \<Rightarrow> event \<Rightarrow> outcome" where
  "step (Returns fw) EmergencyIRQ = Returns (emergencyISR fw)"
| "step (Returns fw) (LoopPass inp) = loop inp fw"
| "step (NeverReturns fw) EmergencyIRQ = NeverReturns (emergencyISR fw)"
| "step (NeverReturns fw) (LoopPass inp) = NeverReturns fw"
| "step OutOfBounds ev = OutOfBounds"

definition run :: "outcome \<Rightarrow> event list \<Rightarrow> outcome" where
  "run c evs = foldl step c evs"

section \<open>Observations on an execution\<close>

text \<open>The four LED channels, as opposed to the relay and the status LED.\<close>

fun is_channel :: "pin \<Rightarrow> bool" where
  "is_channel RELAY_PIN = False"
| "is_channel STATUS_LED_PIN = False"
| "is_channel p = True"

fun channel_write :: "io_event \<Rightarrow> bool" where
  "channel_write (DigitalWrite p b) = is_channel p"
| "channel_write (AnalogWrite p v) = is_channel p"
| "channel_write e = False"

text \<open>What a call added to the record of writes and prints.\<close>

definition emitted :: "firmware \<Rightarrow> firmware \<Rightarrow> io_event list" where
  "emitted fw fw' = drop (length (io fw)) (io fw')"

text \<open>The state an outcome carries, if any.\<close>

fun reached :: "outcome \<Rightarrow> firmware option" where
  "reached (Returns fw) = Some fw"
| "reached (NeverReturns fw) = Some fw"
| "reached OutOfBounds = None"

text \<open>A stretch of the record in which the relay is never written low.\<close>

definition relay_stays :: "io_event list \<Rightarrow> bool" where
  "relay_stays evs = (DigitalWrite RELAY_PIN False \<notin> set evs)"

text \<open>The input of a pass with the interlock engaged and one clock reading.\<close>

definition engaged_pass :: "string option \<Rightarrow> u32 \<Rightarrow> loop_input" where
  "engaged_pass line t =
     \<lparr>safety_pin_low = True, serial_line = line, millis_command = t, millis_tick = t\<rparr>"

text \<open>
  A state in the middle of a run: the first catalog pattern stored, armed, started at
  time 0 and ticked through one full cycle and one more phase.
\<close>

definition first_cycle :: "event list" where
  "first_cycle =
     [LoopPass (engaged_pass (Some ''ARM'') 0), LoopPass (engaged_pass (Some ''START_CYCLE'') 0),
      LoopPass (engaged_pass None 50), LoopPass (engaged_pass None 100),
      LoopPass (engaged_pass None 150), LoopPass (engaged_pass None 200),
      LoopPass (engaged_pass None 250), LoopPass (engaged_pass None 300),
      LoopPass (engaged_pass None 350), LoopPass (engaged_pass None 400),
      LoopPass (engaged_pass None 5400), LoopPass (engaged_pass None 5450)]"

definition mid_cycle :: firmware where
  "mid_cycle = the (reached (run (Returns (setup_fw (PROVEN_PATTERNS ! 0))) first_cycle))"

text \<open>A stored pattern whose only phase has duration zero.\<close>

definition zero_duration_pattern :: AttackPattern where
  "zero_duration_pattern =
     \<lparr>name = ''Zero'', phaseCount = 1, phases = [mk_phase 4 0 255], repeatCount = 1\<rparr>"

text \<open>
  What the specification asks of a pattern before it may be scheduled: at least one
  phase, and a duration of at least 1 ms in each of its \<^verbatim>\<open>phaseCount\<close> phases.
\<close>

definition schedulable :: "AttackPattern \<Rightarrow> bool" where
  "schedulable p =
     (0 < unat (phaseCount p) \<and>
      list_all (\<lambda>i. case phase_at p (of_nat i) of
                       None \<Rightarrow> False
                     | Some ph \<Rightarrow> durationMs ph \<noteq> 0)
               [0..<unat (phaseCount p)])"

text \<open>The state of the state machine that an outcome carries.\<close>

definition system_state :: "outcome \<Rightarrow> SystemState option" where
  "system_state c = map_option currentState (reached c)"

text \<open>
  Configurations in which the emergency has been dealt with: control is inside
  \<^verbatim>\<open>emergencyHandler\<close>, or the flag is latched and the state is
  \<^verbatim>\<open>STATE_IDLE\<close>.
\<close>

fun settled :: "outcome \<Rightarrow> bool" where
  "settled (Returns fw) = (emergencyTriggered fw \<and> currentState fw = STATE_IDLE)"
| "settled (NeverReturns fw) = True"
| "settled OutOfBounds = True"

text \<open>The input of a pass with the interlock open.\<close>

definition open_pass :: "string option \<Rightarrow> u32 \<Rightarrow> loop_input" where
  "open_pass line t =
     \<lparr>safety_pin_low = False, serial_line = line, millis_command = t, millis_tick = t\<rparr>"

text \<open>What \<^verbatim>\<open>emergencyHandler\<close> writes and prints before it starts to blink.\<close>

definition emergency_writes :: "io_event list" where
  "emergency_writes =
     [DigitalWrite HAT_PIN False, DigitalWrite HOODIE_PIN False, DigitalWrite PANTS_PIN False,
      DigitalWrite SHOES_PIN False, DigitalWrite RELAY_PIN False,
      SerialPrintln ''EMERGENCY_STOPPED'', DigitalWrite STATUS_LED_PIN True]"

text \<open>
  The example of the specification: two phases of 50 ms each, started at time 0 and
  ticked every 10 ms up to 220 ms.
\<close>

definition two_phase_pattern :: AttackPattern where
  "two_phase_pattern =
     \<lparr>name = ''Two'', phaseCount = 2, phases = [mk_phase 0 50 255, mk_phase 1 50 128],
      repeatCount = 1\<rparr>"

definition ticks_every_10ms :: "event list" where
  "ticks_every_10ms = map (\<lambda>k. LoopPass (engaged_pass None (word_of_nat (10 * k)))) [1..<23]"

definition two_phase_run :: "event list \<Rightarrow> outcome" where
  "two_phase_run evs =
     run (Returns (setup_fw two_phase_pattern))
       ([LoopPass (engaged_pass (Some ''ARM'') 0),
         LoopPass (engaged_pass (Some ''START_CYCLE'') 0)] @ evs)"

text \<open>The report printed when the phase index wraps.\<close>

definition cycle_complete :: "u32 \<Rightarrow> io_event list" where
  "cycle_complete n = [SerialPrint ''CYCLE_COMPLETE:'', SerialPrintlnNum (uint n)]"

text \<open>
  The invariant of the cursor: the index is inside the array, the phase count is at most
  the capacity, and while cycling the index is below the phase count (or 0 when there is
  no phase) unless the slot it points at has duration zero and so fires at the next tick.
\<close>

definition cursor_ok :: "firmware \<Rightarrow> bool" where
  "cursor_ok fw =
     (unat (currentPhaseIndex fw) < PHASE_CAPACITY
      \<and> unat (phaseCount (currentPattern fw)) \<le> PHASE_CAPACITY
      \<and> (currentState fw = STATE_CYCLING \<longrightarrow>
           unat (currentPhaseIndex fw) < max (unat (phaseCount (currentPattern fw))) 1
           \<or> (\<exists>ph. phase_at (currentPattern fw) (currentPhaseIndex fw) = Some ph
                    \<and> durationMs ph = 0)))"

text \<open>The four commands of the state machine and the lines that carry them.\<close>

datatype command = ARM | DISARM | START_CYCLE | STOP_CYCLE

fun wire :: "command \<Rightarrow> string" where
  "wire ARM = ''ARM''"
| "wire DISARM = ''DISARM''"
| "wire START_CYCLE = ''START_CYCLE''"
| "wire STOP_CYCLE = ''STOP_CYCLE''"

text \<open>
  The transition table of section 4.2 of the specification, as the claim reads it: each
  command acts from its one from-state and leaves every other state unchanged.
\<close>

fun table_4_2 :: "SystemState \<Rightarrow> command \<Rightarrow> SystemState" where
  "table_4_2 STATE_IDLE ARM = STATE_ARMED"
| "table_4_2 STATE_ARMED DISARM = STATE_IDLE"
| "table_4_2 STATE_ARMED START_CYCLE = STATE_CYCLING"
| "table_4_2 STATE_CYCLING STOP_CYCLE = STATE_ARMED"
| "table_4_2 s c = s"

text \<open>
  The same table with the transitions \<^verbatim>\<open>processCommand\<close> makes: only
  \<^verbatim>\<open>START_CYCLE\<close> looks at the state.
\<close>

fun amended_table :: "SystemState \<Rightarrow> command \<Rightarrow> SystemState" where
  "amended_table s ARM = STATE_ARMED"
| "amended_table s DISARM = STATE_IDLE"
| "amended_table s START_CYCLE = (if s = STATE_ARMED then STATE_CYCLING else s)"
| "amended_table s STOP_CYCLE = STATE_ARMED"

fun after_command ::
  "(SystemState \<Rightarrow> command \<Rightarrow> SystemState) \<Rightarrow> SystemState \<Rightarrow> command option \<Rightarrow> SystemState"
where
  "after_command tbl s None = s"
| "after_command tbl s (Some c) = tbl s c"

text \<open>A pass with the interlock engaged that carries a command, or none.\<close>

definition command_pass :: "command option \<times> u32 \<Rightarrow> event" where
  "command_pass ct = LoopPass (engaged_pass (map_option wire (fst ct)) (snd ct))"

text \<open>
  The state \<open>mid_cycle\<close> after \<^verbatim>\<open>STOP_CYCLE\<close> and a load of the second catalog
  pattern.
\<close>

definition stopped_and_reloaded :: firmware where
  "stopped_and_reloaded =
     the (reached (run (Returns (setup_fw (PROVEN_PATTERNS ! 0)))
       (first_cycle @ [LoopPass (engaged_pass (Some ''STOP_CYCLE'') 5460),
                       LoopPass (engaged_pass (Some ''LOAD_PATTERN:1'') 5470)])))"

section \<open>Frame lemmas for the output driver\<close>

declare flickerLoop.simps [simp del]

lemma read_write_pin [simp]:
  "read_pin (write_pin p v ps) q = (if q = p then v else read_pin ps q)"
  by (cases p; cases q) simp_all

lemma digitalWrite_fields [simp]:
  "currentState (digitalWrite p v fw) = currentState fw"
  "safetyEngaged (digitalWrite p v fw) = safetyEngaged fw"
  "emergencyTriggered (digitalWrite p v fw) = emergencyTriggered fw"
  "currentPattern (digitalWrite p v fw) = currentPattern fw"
  "currentPhaseIndex (digitalWrite p v fw) = currentPhaseIndex fw"
  "cycleStartTime (digitalWrite p v fw) = cycleStartTime fw"
  "globalCycleCount (digitalWrite p v fw) = globalCycleCount fw"
  "level_of (digitalWrite p v fw) q = (if q = p then Digital v else level_of fw q)"
  "io (digitalWrite p v fw) = io fw @ [DigitalWrite p v]"
  by (simp_all add: digitalWrite_def level_of_def)

lemma analogWrite_fields [simp]:
  "currentState (analogWrite p v fw) = currentState fw"
  "safetyEngaged (analogWrite p v fw) = safetyEngaged fw"
  "emergencyTriggered (analogWrite p v fw) = emergencyTriggered fw"
  "currentPattern (analogWrite p v fw) = currentPattern fw"
  "currentPhaseIndex (analogWrite p v fw) = currentPhaseIndex fw"
  "cycleStartTime (analogWrite p v fw) = cycleStartTime fw"
  "globalCycleCount (analogWrite p v fw) = globalCycleCount fw"
  "level_of (analogWrite p v fw) q = (if q = p then Pwm v else level_of fw q)"
  "io (analogWrite p v fw) = io fw @ [AnalogWrite p v]"
  by (simp_all add: analogWrite_def level_of_def)

lemma emit_fields [simp]:
  "currentState (emit e fw) = currentState fw"
  "safetyEngaged (emit e fw) = safetyEngaged fw"
  "emergencyTriggered (emit e fw) = emergencyTriggered fw"
  "currentPattern (emit e fw) = currentPattern fw"
  "currentPhaseIndex (emit e fw) = currentPhaseIndex fw"
  "cycleStartTime (emit e fw) = cycleStartTime fw"
  "globalCycleCount (emit e fw) = globalCycleCount fw"
  "outputs (emit e fw) = outputs fw"
  "level_of (emit e fw) q = level_of fw q"
  "io (emit e fw) = io fw @ [e]"
  by (simp_all add: emit_def level_of_def)

lemma flickerBody_fields [simp]:
  "currentState (flickerBody i v fw) = currentState fw"
  "safetyEngaged (flickerBody i v fw) = safetyEngaged fw"
  "emergencyTriggered (flickerBody i v fw) = emergencyTriggered fw"
  "currentPattern (flickerBody i v fw) = currentPattern fw"
  "currentPhaseIndex (flickerBody i v fw) = currentPhaseIndex fw"
  "cycleStartTime (flickerBody i v fw) = cycleStartTime fw"
  "globalCycleCount (flickerBody i v fw) = globalCycleCount fw"
  "level_of (flickerBody i v fw) RELAY_PIN = level_of fw RELAY_PIN"
  "level_of (flickerBody i v fw) STATUS_LED_PIN = level_of fw STATUS_LED_PIN"
  by (simp_all add: flickerBody_def)

lemma flickerBody_io:
  "\<exists>evs. io (flickerBody i v fw) = io fw @ evs \<and> list_all channel_write evs"
  by (simp add: flickerBody_def)

lemma flickerLoop_fields [simp]:
  "currentState (flickerLoop i v fw) = currentState fw"
  "safetyEngaged (flickerLoop i v fw) = safetyEngaged fw"
  "emergencyTriggered (flickerLoop i v fw) = emergencyTriggered fw"
  "currentPattern (flickerLoop i v fw) = currentPattern fw"
  "currentPhaseIndex (flickerLoop i v fw) = currentPhaseIndex fw"
  "cycleStartTime (flickerLoop i v fw) = cycleStartTime fw"
  "globalCycleCount (flickerLoop i v fw) = globalCycleCount fw"
  "level_of (flickerLoop i v fw) RELAY_PIN = level_of fw RELAY_PIN"
  "level_of (flickerLoop i v fw) STATUS_LED_PIN = level_of fw STATUS_LED_PIN"
  by (induction i v fw rule: flickerLoop.induct, subst flickerLoop.simps, simp)+

lemma flickerLoop_io:
  "\<exists>evs. io (flickerLoop i v fw) = io fw @ evs \<and> list_all channel_write evs"
proof (induction i v fw rule: flickerLoop.induct)
  case (1 i v fw)
  show ?case
  proof (cases "i < 50")
    case True
    from 1 [OF True] obtain evs where
      a: "io (flickerLoop (i + 1) v (flickerBody i v fw)) = io (flickerBody i v fw) @ evs"
      and b: "list_all channel_write evs" by blast
    from flickerBody_io [of i v fw] obtain evs0 where
      c: "io (flickerBody i v fw) = io fw @ evs0" and d: "list_all channel_write evs0" by blast
    have "io (flickerLoop i v fw) = io fw @ (evs0 @ evs)"
      using True a c by (subst flickerLoop.simps) simp
    moreover have "list_all channel_write (evs0 @ evs)" using b d by simp
    ultimately show ?thesis by blast
  next
    case False
    then have "io (flickerLoop i v fw) = io fw @ []"
      by (subst flickerLoop.simps) simp
    then show ?thesis by (intro exI [of _ "[]"]) simp
  qed
qed

lemma setLEDGroup_fields [simp]:
  "currentState (setLEDGroup g v fw) = currentState fw"
  "safetyEngaged (setLEDGroup g v fw) = safetyEngaged fw"
  "emergencyTriggered (setLEDGroup g v fw) = emergencyTriggered fw"
  "currentPattern (setLEDGroup g v fw) = currentPattern fw"
  "currentPhaseIndex (setLEDGroup g v fw) = currentPhaseIndex fw"
  "cycleStartTime (setLEDGroup g v fw) = cycleStartTime fw"
  "globalCycleCount (setLEDGroup g v fw) = globalCycleCount fw"
  "level_of (setLEDGroup g v fw) RELAY_PIN = Digital True"
  "level_of (setLEDGroup g v fw) STATUS_LED_PIN = level_of fw STATUS_LED_PIN"
  by (simp_all add: setLEDGroup_def flickerAll_def Let_def)

lemma setLEDGroup_io:
  "\<exists>evs. io (setLEDGroup g v fw) = io fw @ DigitalWrite RELAY_PIN True # evs
         \<and> list_all channel_write evs"
proof -
  from flickerLoop_io [of 0 v "digitalWrite RELAY_PIN True fw"]
  obtain evs where "io (flickerAll v (digitalWrite RELAY_PIN True fw))
      = io fw @ DigitalWrite RELAY_PIN True # evs" and "list_all channel_write evs"
    by (auto simp: flickerAll_def)
  then show ?thesis
    by (auto simp: setLEDGroup_def Let_def)
qed

lemma allLEDsOff_fields [simp]:
  "currentState (allLEDsOff fw) = currentState fw"
  "safetyEngaged (allLEDsOff fw) = safetyEngaged fw"
  "emergencyTriggered (allLEDsOff fw) = emergencyTriggered fw"
  "currentPattern (allLEDsOff fw) = currentPattern fw"
  "currentPhaseIndex (allLEDsOff fw) = currentPhaseIndex fw"
  "cycleStartTime (allLEDsOff fw) = cycleStartTime fw"
  "globalCycleCount (allLEDsOff fw) = globalCycleCount fw"
  "level_of (allLEDsOff fw) RELAY_PIN = Digital False"
  "level_of (allLEDsOff fw) STATUS_LED_PIN = level_of fw STATUS_LED_PIN"
  "channels_off (allLEDsOff fw)"
  "io (allLEDsOff fw) = io fw @ [DigitalWrite HAT_PIN False, DigitalWrite HOODIE_PIN False,
      DigitalWrite PANTS_PIN False, DigitalWrite SHOES_PIN False, DigitalWrite RELAY_PIN False]"
  by (simp_all add: allLEDsOff_def channels_off_def)

section \<open>The emergency interrupt\<close>

text \<open>
  C8. The handler of the asynchronous emergency trigger, \<^verbatim>\<open>emergencyISR\<close>, sets the
  latched flag and returns: it writes no pin, prints nothing on the serial port and
  changes no other variable, whatever the state in which it fires.
\<close>

theorem emergencyISR_only_latches:
  "emergencyTriggered (emergencyISR fw)
   \<and> io (emergencyISR fw) = io fw
   \<and> outputs (emergencyISR fw) = outputs fw
   \<and> currentState (emergencyISR fw) = currentState fw
   \<and> safetyEngaged (emergencyISR fw) = safetyEngaged fw
   \<and> currentPattern (emergencyISR fw) = currentPattern fw
   \<and> currentPhaseIndex (emergencyISR fw) = currentPhaseIndex fw
   \<and> cycleStartTime (emergencyISR fw) = cycleStartTime fw
   \<and> globalCycleCount (emergencyISR fw) = globalCycleCount fw"
  by (simp add: emergencyISR_def)

section \<open>The relay\<close>

lemma channel_write_not_relay:
  "list_all channel_write evs \<Longrightarrow> DigitalWrite RELAY_PIN b \<notin> set evs"
  by (induction evs) auto

lemma setLEDGroup_beyond_5:
  assumes "5 < g"
  shows "setLEDGroup g v fw = digitalWrite RELAY_PIN True fw"
proof -
  have "g \<noteq> 0" "g \<noteq> 1" "g \<noteq> 2" "g \<noteq> 3" "g \<noteq> 4" "g \<noteq> 5"
    using assms by auto
  then show ?thesis
    by (simp add: setLEDGroup_def Let_def)
qed

lemma emitted_append [simp]: "io fw' = io fw @ evs \<Longrightarrow> emitted fw fw' = evs"
  by (simp add: emitted_def)

lemma emitted_self [simp]: "emitted fw fw = []"
  by (simp add: emitted_def)

lemma setLEDGroup_emitted:
  "\<exists>evs. io (setLEDGroup g v fw) = io fw @ evs \<and> relay_stays evs"
  using setLEDGroup_io [of g v fw] channel_write_not_relay [of _ False]
  by (auto simp: relay_stays_def)

lemma sendStatusJson_io:
  "\<exists>evs. io (sendStatusJson fw) = io fw @ evs \<and> relay_stays evs"
  by (simp add: sendStatusJson_def relay_stays_def)

lemma loadPatternCommand_io:
  "\<exists>evs. io (loadPatternCommand cmd fw) = io fw @ evs \<and> relay_stays evs"
  by (simp add: loadPatternCommand_def relay_stays_def Let_def)

lemma setGroupCommand_shape:
  "setGroupCommand cmd fw = emit (SerialPrintln ''GROUP_SET'') fw
   \<or> (\<exists>g v. setGroupCommand cmd fw = emit (SerialPrintln ''GROUP_SET'') (setLEDGroup g v fw))"
  unfolding setGroupCommand_def Let_def by (rule if_split [THEN iffD2]) blast

lemma setGroupCommand_io:
  "\<exists>evs. io (setGroupCommand cmd fw) = io fw @ evs \<and> relay_stays evs"
proof -
  have "\<exists>evs. io (emit (SerialPrintln ''GROUP_SET'') (setLEDGroup g v fw)) = io fw @ evs \<and> relay_stays evs"
    for g v
    using setLEDGroup_emitted [of g v fw] by (auto simp: relay_stays_def)
  moreover have "\<exists>evs. io (emit (SerialPrintln ''GROUP_SET'') fw) = io fw @ evs \<and> relay_stays evs"
    by (simp add: relay_stays_def)
  ultimately show ?thesis
    using setGroupCommand_shape [of cmd fw] by metis
qed

lemma processAutonomousCycle_io:
  assumes "processAutonomousCycle now fw = Returns fw'"
  shows "\<exists>evs. io fw' = io fw @ evs \<and> relay_stays evs"
proof -
  have *: "\<exists>evs. io (setLEDGroup g v fw) @ more = io fw @ evs \<and> relay_stays evs"
    if "relay_stays more" for g v more
    using setLEDGroup_emitted [of g v fw] that by (auto simp: relay_stays_def)
  show ?thesis
    using assms * [of "[]"] * [of "[SerialPrint ''CYCLE_COMPLETE:'', SerialPrintlnNum n]" for n]
    by (auto simp: processAutonomousCycle_def executeCurrentPhase_def Let_def relay_stays_def
        split: if_splits option.splits)
qed

lemma processAutonomousCycle_returns:
  "processAutonomousCycle now fw \<noteq> NeverReturns fw'"
  by (simp add: processAutonomousCycle_def executeCurrentPhase_def Let_def
      split: option.splits)

lemma processCommand_io:
  assumes "reached (processCommand now cmd fw) = Some fw'"
  shows "\<exists>evs. io fw' = io fw @ evs \<and>
           (cmd \<noteq> ''DISARM'' \<and> cmd \<noteq> ''ALL_OFF'' \<and> cmd \<noteq> ''EMERGENCY'' \<longrightarrow> relay_stays evs)"
  using assms loadPatternCommand_io [of cmd fw] setGroupCommand_io [of cmd fw]
    sendStatusJson_io [of fw]
  by (auto simp: processCommand_def emergencyHandler_def relay_stays_def split: if_splits)

lemma loop_relay_low:
  assumes "reached (loop inp fw) = Some fw'"
    and "DigitalWrite RELAY_PIN False \<in> set (emitted fw fw')"
  shows "((emergencyTriggered fw \<or> \<not> safety_pin_low inp) \<and> currentState fw \<noteq> STATE_IDLE)
       \<or> (\<exists>line. serial_line inp = Some line
             \<and> (trim line = ''DISARM'' \<or> trim line = ''ALL_OFF'' \<or> trim line = ''EMERGENCY''))"
proof (cases "emergencyTriggered fw \<or> \<not> safety_pin_low inp")
  case True
  then show ?thesis
    using assms by (auto simp: loop_def Let_def emitted_def split: if_splits)
next
  case False
  let ?fw1 = "fw\<lparr>safetyEngaged := safety_pin_low inp\<rparr>"
  show ?thesis
  proof (cases "serial_line inp")
    case None
    with False assms have "processAutonomousCycle (millis_tick inp) ?fw1 = Returns fw'"
      using processAutonomousCycle_returns [of "millis_tick inp" ?fw1]
      by (cases "processAutonomousCycle (millis_tick inp) ?fw1")
         (auto simp: loop_def Let_def processSerialCommand_def)
    from processAutonomousCycle_io [OF this] assms(2) show ?thesis
      by (auto simp: relay_stays_def)
  next
    case (Some line)
    show ?thesis
    proof (rule ccontr)
      assume neg: "\<not> ?thesis"
      with Some have cmd: "trim line \<noteq> ''DISARM''" "trim line \<noteq> ''ALL_OFF''"
        "trim line \<noteq> ''EMERGENCY''" by auto
      show False
      proof (cases "processCommand (millis_command inp) (trim line) ?fw1")
        case (Returns fw2)
        with False Some assms(1) have t: "processAutonomousCycle (millis_tick inp) fw2 = Returns fw'"
          using processAutonomousCycle_returns [of "millis_tick inp" fw2]
          by (cases "processAutonomousCycle (millis_tick inp) fw2")
             (auto simp: loop_def Let_def processSerialCommand_def)
        from Returns have "reached (processCommand (millis_command inp) (trim line) ?fw1) = Some fw2"
          by simp
        from processCommand_io [OF this] cmd obtain e1 where
          "io fw2 = io fw @ e1" "relay_stays e1" by auto
        moreover from processAutonomousCycle_io [OF t] obtain e2 where
          "io fw' = io fw2 @ e2" "relay_stays e2" by auto
        ultimately show False using assms(2) by (auto simp: relay_stays_def)
      next
        case (NeverReturns fw2)
        with False Some assms(1) have "fw2 = fw'"
          by (auto simp: loop_def Let_def processSerialCommand_def)
        with NeverReturns have "reached (processCommand (millis_command inp) (trim line) ?fw1) = Some fw'"
          by simp
        from processCommand_io [OF this] cmd assms(2) show False
          by (auto simp: relay_stays_def)
      next
        case OutOfBounds
        with False Some assms(1) show False
          by (auto simp: loop_def Let_def processSerialCommand_def)
      qed
    qed
  qed
qed

text \<open>
  C10, as stated, has the relay driven low only by \<^verbatim>\<open>allLEDsOff\<close>. The pin
  initialisation of \<^verbatim>\<open>setup()\<close> also writes the relay low, once, without the four
  channel writes of \<^verbatim>\<open>allLEDsOff\<close> before it.
\<close>

theorem relay_low_in_setup:
  "io (setup_fw (PROVEN_PATTERNS ! 0)) =
     [SerialPrintln ''\<newline>IRWP v2.5 STM32 Firmware'', DigitalWrite RELAY_PIN False,
      DigitalWrite STATUS_LED_PIN False, SerialPrintln ''STM32 Firmware Initialized'']"
  by (simp add: setup_fw_def)

text \<open>
  C10, amended. Every call of \<^verbatim>\<open>setLEDGroup\<close> writes the relay high first and
  then writes channels only, for every group and intensity; for a group above 5 it writes
  nothing else and no channel changes. Once \<^verbatim>\<open>setup()\<close> has run, a pass of
  \<^verbatim>\<open>loop\<close> writes the relay low only on the paths that call \<^verbatim>\<open>allLEDsOff\<close>:
  the entry into the emergency state (latched flag or open interlock outside
  \<^verbatim>\<open>STATE_IDLE\<close>, or the command \<^verbatim>\<open>EMERGENCY\<close>) and the commands
  \<^verbatim>\<open>DISARM\<close> and \<^verbatim>\<open>ALL_OFF\<close>; the interrupt writes nothing.
\<close>

theorem relay_high_first_and_low_only_by_allLEDsOff:
  "(\<exists>evs. io (setLEDGroup g v fw) = io fw @ DigitalWrite RELAY_PIN True # evs
           \<and> list_all channel_write evs \<and> (5 < g \<longrightarrow> evs = []))
   \<and> level_of (setLEDGroup g v fw) RELAY_PIN = Digital True
   \<and> (5 < g \<longrightarrow> (\<forall>p. is_channel p \<longrightarrow> level_of (setLEDGroup g v fw) p = level_of fw p))
   \<and> (reached (loop inp fw) = Some fw' \<and> DigitalWrite RELAY_PIN False \<in> set (emitted fw fw')
        \<longrightarrow> ((emergencyTriggered fw \<or> \<not> safety_pin_low inp) \<and> currentState fw \<noteq> STATE_IDLE)
          \<or> (\<exists>line. serial_line inp = Some line
                \<and> (trim line = ''DISARM'' \<or> trim line = ''ALL_OFF'' \<or> trim line = ''EMERGENCY'')))
   \<and> emitted fw (emergencyISR fw) = []"
proof (intro conjI)
  show "\<exists>evs. io (setLEDGroup g v fw) = io fw @ DigitalWrite RELAY_PIN True # evs
           \<and> list_all channel_write evs \<and> (5 < g \<longrightarrow> evs = [])"
  proof (cases "5 < g")
    case True
    then show ?thesis by (simp add: setLEDGroup_beyond_5)
  next
    case False
    then show ?thesis using setLEDGroup_io [of g v fw] by auto
  qed
  show "5 < g \<longrightarrow> (\<forall>p. is_channel p \<longrightarrow> level_of (setLEDGroup g v fw) p = level_of fw p)"
    by (auto simp: setLEDGroup_beyond_5)
  show "emitted fw (emergencyISR fw) = []"
    by (simp add: emergencyISR_def emitted_def)
  show "level_of (setLEDGroup g v fw) RELAY_PIN = Digital True"
    by simp
  show "reached (loop inp fw) = Some fw' \<and> DigitalWrite RELAY_PIN False \<in> set (emitted fw fw')
        \<longrightarrow> ((emergencyTriggered fw \<or> \<not> safety_pin_low inp) \<and> currentState fw \<noteq> STATE_IDLE)
          \<or> (\<exists>line. serial_line inp = Some line
                \<and> (trim line = ''DISARM'' \<or> trim line = ''ALL_OFF'' \<or> trim line = ''EMERGENCY''))"
    using loop_relay_low [of inp fw fw'] by blast
qed

theorem relay_witness:
  "(5 :: u8) < 6
   \<and> reached (loop (engaged_pass (Some ''DISARM'') 0) (setup_fw (PROVEN_PATTERNS ! 0)))
       = Some (the (reached (loop (engaged_pass (Some ''DISARM'') 0) (setup_fw (PROVEN_PATTERNS ! 0)))))
   \<and> DigitalWrite RELAY_PIN False \<in> set (emitted (setup_fw (PROVEN_PATTERNS ! 0))
         (the (reached (loop (engaged_pass (Some ''DISARM'') 0) (setup_fw (PROVEN_PATTERNS ! 0))))))
   \<and> (\<exists>evs. io (setLEDGroup 6 0 (setup_fw (PROVEN_PATTERNS ! 0)))
              = io (setup_fw (PROVEN_PATTERNS ! 0)) @ DigitalWrite RELAY_PIN True # evs
            \<and> list_all channel_write evs \<and> evs = [])
   \<and> (((emergencyTriggered (setup_fw (PROVEN_PATTERNS ! 0))
          \<or> \<not> safety_pin_low (engaged_pass (Some ''DISARM'') 0))
         \<and> currentState (setup_fw (PROVEN_PATTERNS ! 0)) \<noteq> STATE_IDLE)
       \<or> (\<exists>line. serial_line (engaged_pass (Some ''DISARM'') 0) = Some line
             \<and> (trim line = ''DISARM'' \<or> trim line = ''ALL_OFF'' \<or> trim line = ''EMERGENCY'')))"
proof -
  have a: "(5 :: u8) < 6" by simp
  have b: "reached (loop (engaged_pass (Some ''DISARM'') 0) (setup_fw (PROVEN_PATTERNS ! 0)))
       = Some (the (reached (loop (engaged_pass (Some ''DISARM'') 0) (setup_fw (PROVEN_PATTERNS ! 0)))))"
    by code_simp
  have c: "DigitalWrite RELAY_PIN False \<in> set (emitted (setup_fw (PROVEN_PATTERNS ! 0))
         (the (reached (loop (engaged_pass (Some ''DISARM'') 0) (setup_fw (PROVEN_PATTERNS ! 0))))))"
    by code_simp
  show ?thesis
    using a b c relay_high_first_and_low_only_by_allLEDsOff [of 6 0 "setup_fw (PROVEN_PATTERNS ! 0)"
        "engaged_pass (Some ''DISARM'') 0"
        "the (reached (loop (engaged_pass (Some ''DISARM'') 0) (setup_fw (PROVEN_PATTERNS ! 0))))"]
    by blast
qed

section \<open>Commands\<close>

lemma prefix_not_exact:
  assumes "startsWith cmd ''LOAD_PATTERN:''"
  shows "cmd \<noteq> ''ARM''" "cmd \<noteq> ''DISARM''" "cmd \<noteq> ''START_CYCLE''" "cmd \<noteq> ''STOP_CYCLE''"
  using assms by (auto simp: startsWith_def)

lemma sendStatusJson_fields [simp]:
  "currentState (sendStatusJson fw) = currentState fw"
  "safetyEngaged (sendStatusJson fw) = safetyEngaged fw"
  "emergencyTriggered (sendStatusJson fw) = emergencyTriggered fw"
  "currentPattern (sendStatusJson fw) = currentPattern fw"
  "currentPhaseIndex (sendStatusJson fw) = currentPhaseIndex fw"
  "cycleStartTime (sendStatusJson fw) = cycleStartTime fw"
  "globalCycleCount (sendStatusJson fw) = globalCycleCount fw"
  "outputs (sendStatusJson fw) = outputs fw"
  by (simp_all add: sendStatusJson_def)

lemma loadPatternCommand_fields [simp]:
  "currentState (loadPatternCommand cmd fw) = currentState fw"
  "safetyEngaged (loadPatternCommand cmd fw) = safetyEngaged fw"
  "emergencyTriggered (loadPatternCommand cmd fw) = emergencyTriggered fw"
  "currentPhaseIndex (loadPatternCommand cmd fw) = currentPhaseIndex fw"
  "cycleStartTime (loadPatternCommand cmd fw) = cycleStartTime fw"
  "globalCycleCount (loadPatternCommand cmd fw) = globalCycleCount fw"
  "outputs (loadPatternCommand cmd fw) = outputs fw"
  by (simp_all add: loadPatternCommand_def Let_def)

lemma loadPatternCommand_pattern:
  "currentPattern (loadPatternCommand cmd fw) = currentPattern fw
   \<or> currentPattern (loadPatternCommand cmd fw) \<in> set PROVEN_PATTERNS"
  by (simp add: loadPatternCommand_def Let_def PATTERN_COUNT_def)

lemma setGroupCommand_fields [simp]:
  "currentState (setGroupCommand cmd fw) = currentState fw"
  "safetyEngaged (setGroupCommand cmd fw) = safetyEngaged fw"
  "emergencyTriggered (setGroupCommand cmd fw) = emergencyTriggered fw"
  "currentPattern (setGroupCommand cmd fw) = currentPattern fw"
  "currentPhaseIndex (setGroupCommand cmd fw) = currentPhaseIndex fw"
  "cycleStartTime (setGroupCommand cmd fw) = cycleStartTime fw"
  "globalCycleCount (setGroupCommand cmd fw) = globalCycleCount fw"
  using setGroupCommand_shape [of cmd fw] by auto

lemma processCommand_pattern:
  assumes "reached (processCommand now cmd fw) = Some fw'"
  shows "currentPattern fw' = currentPattern fw \<or> currentPattern fw' \<in> set PROVEN_PATTERNS"
  using assms loadPatternCommand_pattern [of cmd fw]
  by (auto simp: processCommand_def emergencyHandler_def split: if_splits)

subsection \<open>What a load resets\<close>

text \<open>
  C6, as stated, has a successful load reset the phase index and the cycle count. In
  \<open>mid_cycle\<close> the firmware is cycling through the first catalog pattern, at phase 1
  with one cycle completed; \<^verbatim>\<open>LOAD_PATTERN:1\<close> then replaces the pattern, and the
  phase index, the cycle count and the phase start time are those of the run before.
\<close>

theorem load_keeps_cursor_example:
  "currentState mid_cycle = STATE_CYCLING
   \<and> currentPhaseIndex mid_cycle = 1
   \<and> globalCycleCount mid_cycle = 1
   \<and> currentPattern mid_cycle = PROVEN_PATTERNS ! 0
   \<and> currentPattern (the (reached (processCommand 5451 ''LOAD_PATTERN:1'' mid_cycle)))
       = PROVEN_PATTERNS ! 1
   \<and> currentPhaseIndex (the (reached (processCommand 5451 ''LOAD_PATTERN:1'' mid_cycle))) = 1
   \<and> globalCycleCount (the (reached (processCommand 5451 ''LOAD_PATTERN:1'' mid_cycle))) = 1
   \<and> cycleStartTime (the (reached (processCommand 5451 ''LOAD_PATTERN:1'' mid_cycle))) = 5450"
  by code_simp

text \<open>
  C6, amended. For every state and every \<^verbatim>\<open>LOAD_PATTERN:\<close> line whose index is in
  range, the load replaces \<^verbatim>\<open>currentPattern\<close> by the catalog entry and prints the
  acknowledgement, and changes nothing else: phase index, phase start time, cycle count,
  state and outputs are as before. The phase index and the phase start time are reset by
  \<^verbatim>\<open>START_CYCLE\<close> in \<^verbatim>\<open>STATE_ARMED\<close>, which leaves the cycle count alone.
\<close>

theorem load_replaces_pattern_only:
  "(startsWith cmd ''LOAD_PATTERN:''
      \<and> unat (word_of_int (toInt (substring_from cmd 13)) :: u8) < PATTERN_COUNT
    \<longrightarrow> processCommand now cmd fw =
          Returns (fw\<lparr>currentPattern :=
                        PROVEN_PATTERNS ! unat (word_of_int (toInt (substring_from cmd 13)) :: u8),
                      io := io fw @ [SerialPrint ''PATTERN_LOADED:'',
                        SerialPrintln (name (PROVEN_PATTERNS !
                          unat (word_of_int (toInt (substring_from cmd 13)) :: u8)))]\<rparr>))
   \<and> (currentState fw = STATE_ARMED
    \<longrightarrow> processCommand now ''START_CYCLE'' fw =
          Returns (fw\<lparr>currentState := STATE_CYCLING, currentPhaseIndex := 0,
                      cycleStartTime := now, io := io fw @ [SerialPrintln ''CYCLE_STARTED'']\<rparr>))"
proof (intro conjI impI)
  assume a: "startsWith cmd ''LOAD_PATTERN:''
      \<and> unat (word_of_int (toInt (substring_from cmd 13)) :: u8) < PATTERN_COUNT"
  with prefix_not_exact [of cmd] show "processCommand now cmd fw =
          Returns (fw\<lparr>currentPattern :=
                        PROVEN_PATTERNS ! unat (word_of_int (toInt (substring_from cmd 13)) :: u8),
                      io := io fw @ [SerialPrint ''PATTERN_LOADED:'',
                        SerialPrintln (name (PROVEN_PATTERNS !
                          unat (word_of_int (toInt (substring_from cmd 13)) :: u8)))]\<rparr>)"
    by (simp add: processCommand_def loadPatternCommand_def Let_def emit_def)
next
  assume "currentState fw = STATE_ARMED"
  then show "processCommand now ''START_CYCLE'' fw =
          Returns (fw\<lparr>currentState := STATE_CYCLING, currentPhaseIndex := 0,
                      cycleStartTime := now, io := io fw @ [SerialPrintln ''CYCLE_STARTED'']\<rparr>)"
    by (simp add: processCommand_def emit_def)
qed

theorem load_witness:
  "startsWith ''LOAD_PATTERN:2'' ''LOAD_PATTERN:''
   \<and> unat (word_of_int (toInt (substring_from ''LOAD_PATTERN:2'' 13)) :: u8) < PATTERN_COUNT
   \<and> currentState (the (reached (processCommand 7 ''ARM'' mid_cycle))) = STATE_ARMED
   \<and> processCommand 9 ''LOAD_PATTERN:2'' mid_cycle =
        Returns (mid_cycle\<lparr>currentPattern := PROVEN_PATTERNS ! 2,
                   io := io mid_cycle @ [SerialPrint ''PATTERN_LOADED:'',
                                          SerialPrintln ''Rolling_Shutter_Flicker'']\<rparr>)
   \<and> currentPhaseIndex (the (reached (processCommand 8 ''START_CYCLE''
         (the (reached (processCommand 7 ''ARM'' mid_cycle)))))) = 0"
proof -
  have a: "startsWith ''LOAD_PATTERN:2'' ''LOAD_PATTERN:''
   \<and> unat (word_of_int (toInt (substring_from ''LOAD_PATTERN:2'' 13)) :: u8) < PATTERN_COUNT"
    by code_simp
  have b: "currentState (the (reached (processCommand 7 ''ARM'' mid_cycle))) = STATE_ARMED"
    by code_simp
  have c: "unat (word_of_int (toInt (substring_from ''LOAD_PATTERN:2'' 13)) :: u8) = 2"
    by code_simp
  have d: "name (PROVEN_PATTERNS ! 2) = ''Rolling_Shutter_Flicker''"
    by code_simp
  from a b c d
    load_replaces_pattern_only [of "''LOAD_PATTERN:2''" 9 mid_cycle]
    load_replaces_pattern_only [of "''LOAD_PATTERN:2''" 8 "the (reached (processCommand 7 ''ARM'' mid_cycle))"]
  show ?thesis by simp
qed

subsection \<open>What a load checks\<close>

text \<open>
  C5, as stated, has a pattern with a zero-duration phase rejected at load. The pattern
  \<^verbatim>\<open>setup()\<close> reads from the EEPROM becomes current unchecked: with
  \<open>zero_duration_pattern\<close> stored, it is the current pattern after start-up, nothing
  reports a rejection, and \<^verbatim>\<open>ARM\<close>, \<^verbatim>\<open>START_CYCLE\<close> run it (its phase fires
  in the pass that starts the cycle).
\<close>

theorem zero_duration_pattern_accepted:
  "currentPattern (setup_fw zero_duration_pattern) = zero_duration_pattern
   \<and> \<not> schedulable zero_duration_pattern
   \<and> io (setup_fw zero_duration_pattern) =
       [SerialPrintln ''\<newline>IRWP v2.5 STM32 Firmware'', DigitalWrite RELAY_PIN False,
        DigitalWrite STATUS_LED_PIN False, SerialPrintln ''STM32 Firmware Initialized'']
   \<and> emitted (setup_fw zero_duration_pattern)
        (the (reached (run (Returns (setup_fw zero_duration_pattern))
           [LoopPass (engaged_pass (Some ''ARM'') 0),
            LoopPass (engaged_pass (Some ''START_CYCLE'') 0)])))
       = [SerialPrintln ''ACK_ARMED'', SerialPrintln ''CYCLE_STARTED'',
          DigitalWrite RELAY_PIN True, AnalogWrite HAT_PIN 255, AnalogWrite HOODIE_PIN 255,
          AnalogWrite PANTS_PIN 255, AnalogWrite SHOES_PIN 255,
          SerialPrint ''CYCLE_COMPLETE:'', SerialPrintlnNum 1]"
  by code_simp

text \<open>
  C5, amended. No load validates durations or phase counts, and none reports a rejection.
  A \<^verbatim>\<open>LOAD_PATTERN:\<close> line tests one thing, the index narrowed to \<^verbatim>\<open>uint8_t\<close>
  against \<^verbatim>\<open>PATTERN_COUNT\<close>: in range it makes the catalog entry current and prints
  \<^verbatim>\<open>PATTERN_LOADED:\<close> and the name, out of range it changes nothing and prints
  nothing. A command changes the current pattern only to an entry of the catalog, and
  every entry of the catalog has at least one phase and a positive duration in each of
  its phases. \<^verbatim>\<open>setup()\<close> makes the stored pattern current as it is and prints and
  writes the same four events whatever is stored.
\<close>

theorem load_checks_index_only:
  "(startsWith cmd ''LOAD_PATTERN:''
      \<longrightarrow> processCommand now cmd fw =
          (if unat (word_of_int (toInt (substring_from cmd 13)) :: u8) < PATTERN_COUNT
           then Returns (fw\<lparr>currentPattern := PROVEN_PATTERNS ! unat (word_of_int (toInt (substring_from cmd 13)) :: u8),
                           io := io fw @ [SerialPrint ''PATTERN_LOADED:'',
                             SerialPrintln (name (PROVEN_PATTERNS ! unat (word_of_int (toInt (substring_from cmd 13)) :: u8)))]\<rparr>)
           else Returns fw))
   \<and> (reached (processCommand now cmd fw) = Some fw'
      \<longrightarrow> currentPattern fw' = currentPattern fw \<or> currentPattern fw' \<in> set PROVEN_PATTERNS)
   \<and> list_all schedulable PROVEN_PATTERNS
   \<and> currentPattern (setup_fw stored) = stored
   \<and> io (setup_fw stored) =
       [SerialPrintln ''\<newline>IRWP v2.5 STM32 Firmware'', DigitalWrite RELAY_PIN False,
        DigitalWrite STATUS_LED_PIN False, SerialPrintln ''STM32 Firmware Initialized'']"
proof (intro conjI impI)
  assume "startsWith cmd ''LOAD_PATTERN:''"
  with prefix_not_exact [of cmd]
  show "processCommand now cmd fw =
          (if unat (word_of_int (toInt (substring_from cmd 13)) :: u8) < PATTERN_COUNT
           then Returns (fw\<lparr>currentPattern := PROVEN_PATTERNS ! unat (word_of_int (toInt (substring_from cmd 13)) :: u8),
                           io := io fw @ [SerialPrint ''PATTERN_LOADED:'',
                             SerialPrintln (name (PROVEN_PATTERNS ! unat (word_of_int (toInt (substring_from cmd 13)) :: u8)))]\<rparr>)
           else Returns fw)"
    by (simp add: processCommand_def loadPatternCommand_def Let_def emit_def)
next
  assume "reached (processCommand now cmd fw) = Some fw'"
  then show "currentPattern fw' = currentPattern fw \<or> currentPattern fw' \<in> set PROVEN_PATTERNS"
    by (rule processCommand_pattern)
next
  show "list_all schedulable PROVEN_PATTERNS"
    by code_simp
  show "currentPattern (setup_fw stored) = stored"
    by (simp add: setup_fw_def)
  show "io (setup_fw stored) =
       [SerialPrintln ''\<newline>IRWP v2.5 STM32 Firmware'', DigitalWrite RELAY_PIN False,
        DigitalWrite STATUS_LED_PIN False, SerialPrintln ''STM32 Firmware Initialized'']"
    by (simp add: setup_fw_def)
qed

theorem load_checks_index_only_witness:
  "startsWith ''LOAD_PATTERN:1'' ''LOAD_PATTERN:''
   \<and> processCommand 0 ''LOAD_PATTERN:1'' (setup_fw zero_duration_pattern)
       = Returns ((setup_fw zero_duration_pattern)
           \<lparr>currentPattern := PROVEN_PATTERNS ! 1,
            io := io (setup_fw zero_duration_pattern)
                  @ [SerialPrint ''PATTERN_LOADED:'', SerialPrintln ''Sensor_Saturation_Blast'']\<rparr>)
   \<and> startsWith ''LOAD_PATTERN:99'' ''LOAD_PATTERN:''
   \<and> processCommand 0 ''LOAD_PATTERN:99'' (setup_fw zero_duration_pattern)
       = Returns (setup_fw zero_duration_pattern)
   \<and> reached (processCommand 0 ''LOAD_PATTERN:1'' (setup_fw zero_duration_pattern))
     = Some (the (reached (processCommand 0 ''LOAD_PATTERN:1'' (setup_fw zero_duration_pattern))))
   \<and> currentPattern (the (reached (processCommand 0 ''LOAD_PATTERN:1''
         (setup_fw zero_duration_pattern)))) \<in> set PROVEN_PATTERNS
   \<and> currentPattern (setup_fw zero_duration_pattern) = zero_duration_pattern
   \<and> io (setup_fw zero_duration_pattern) =
       [SerialPrintln ''\<newline>IRWP v2.5 STM32 Firmware'', DigitalWrite RELAY_PIN False,
        DigitalWrite STATUS_LED_PIN False, SerialPrintln ''STM32 Firmware Initialized'']"
proof -
  have a: "reached (processCommand 0 ''LOAD_PATTERN:1'' (setup_fw zero_duration_pattern))
     = Some (the (reached (processCommand 0 ''LOAD_PATTERN:1'' (setup_fw zero_duration_pattern))))"
    by code_simp
  have b: "currentPattern (the (reached (processCommand 0 ''LOAD_PATTERN:1''
         (setup_fw zero_duration_pattern)))) \<noteq> currentPattern (setup_fw zero_duration_pattern)"
    by code_simp
  have c: "startsWith ''LOAD_PATTERN:1'' ''LOAD_PATTERN:''"
    "startsWith ''LOAD_PATTERN:99'' ''LOAD_PATTERN:''"
    by code_simp+
  have d: "unat (word_of_int (toInt (substring_from ''LOAD_PATTERN:1'' 13)) :: u8) = 1"
    "unat (word_of_int (toInt (substring_from ''LOAD_PATTERN:99'' 13)) :: u8) = 99"
    "PATTERN_COUNT = 3" "name (PROVEN_PATTERNS ! 1) = ''Sensor_Saturation_Blast''"
    by code_simp+
  have e: "processCommand 0 ''LOAD_PATTERN:1'' (setup_fw zero_duration_pattern)
       = Returns ((setup_fw zero_duration_pattern)
           \<lparr>currentPattern := PROVEN_PATTERNS ! 1,
            io := io (setup_fw zero_duration_pattern)
                  @ [SerialPrint ''PATTERN_LOADED:'', SerialPrintln ''Sensor_Saturation_Blast'']\<rparr>)"
    using c(1) d load_checks_index_only [of "''LOAD_PATTERN:1''" 0 "setup_fw zero_duration_pattern"
        "the (reached (processCommand 0 ''LOAD_PATTERN:1'' (setup_fw zero_duration_pattern)))"
        zero_duration_pattern]
    by simp
  have f: "processCommand 0 ''LOAD_PATTERN:99'' (setup_fw zero_duration_pattern)
       = Returns (setup_fw zero_duration_pattern)"
    using c(2) d load_checks_index_only [of "''LOAD_PATTERN:99''" 0 "setup_fw zero_duration_pattern"
        "setup_fw zero_duration_pattern" zero_duration_pattern]
    by simp
  show ?thesis
    using a b c e f load_checks_index_only [of "''LOAD_PATTERN:1''" 0 "setup_fw zero_duration_pattern"
        "the (reached (processCommand 0 ''LOAD_PATTERN:1'' (setup_fw zero_duration_pattern)))"
        zero_duration_pattern]
    by blast
qed

subsection \<open>Lines that are not commands\<close>

text \<open>
  The parts of C7 that hold: a line that matches no branch of \<^verbatim>\<open>processCommand\<close>
  changes nothing, and \<^verbatim>\<open>LOAD_PATTERN:99\<close> changes nothing and prints nothing.
\<close>

lemma unrecognized_command_ignored:
  assumes "cmd \<notin> {''ARM'', ''DISARM'', ''START_CYCLE'', ''STOP_CYCLE'', ''EMERGENCY'',
                   ''GET_STATUS'', ''IDENTIFY'', ''ALL_OFF''}"
    and "\<not> startsWith cmd ''LOAD_PATTERN:''" and "\<not> startsWith cmd ''SET_GROUP:''"
  shows "processCommand now cmd fw = Returns fw"
  using assms by (simp add: processCommand_def)

lemma out_of_range_index_ignored:
  "processCommand now ''LOAD_PATTERN:99'' fw = Returns fw"
proof -
  have "unat (word_of_int (toInt (substring_from ''LOAD_PATTERN:99'' 13)) :: u8) = 99"
    by code_simp
  moreover have "startsWith ''LOAD_PATTERN:99'' ''LOAD_PATTERN:''" by code_simp
  moreover have "PATTERN_COUNT = 3" by code_simp
  ultimately show ?thesis
    by (simp add: processCommand_def loadPatternCommand_def Let_def)
qed

text \<open>
  C7 says that every malformed \<^verbatim>\<open>LOAD_PATTERN\<close> payload leaves the state unchanged
  and is not acknowledged. For the line \<^verbatim>\<open>LOAD_PATTERN:abc\<close> the firmware computes
  \<^verbatim>\<open>toInt() = 0\<close>, passes its own range check, replaces the current pattern (here
  the second catalog entry) by the first and prints \<^verbatim>\<open>PATTERN_LOADED:AGC_Lock_5_Second\<close>.
\<close>

theorem non_numeric_payload_loads_entry_0:
  "currentPattern (setup_fw (PROVEN_PATTERNS ! 1)) = PROVEN_PATTERNS ! 1
   \<and> processCommand 0 ''LOAD_PATTERN:abc'' (setup_fw (PROVEN_PATTERNS ! 1))
       = Returns ((setup_fw (PROVEN_PATTERNS ! 1))
           \<lparr>currentPattern := PROVEN_PATTERNS ! 0,
            io := io (setup_fw (PROVEN_PATTERNS ! 1))
                  @ [SerialPrint ''PATTERN_LOADED:'', SerialPrintln ''AGC_Lock_5_Second'']\<rparr>)
   \<and> PROVEN_PATTERNS ! 0 \<noteq> PROVEN_PATTERNS ! 1"
  by code_simp

text \<open>
  The narrowing to \<^verbatim>\<open>uint8_t\<close> does the same to \<^verbatim>\<open>LOAD_PATTERN:256\<close>, and a
  \<^verbatim>\<open>SET_GROUP\<close> payload with both keys and no numbers energises the relay.
\<close>

lemma wrapped_payload_loads_entry_0:
  "processCommand 0 ''LOAD_PATTERN:256'' (setup_fw (PROVEN_PATTERNS ! 1))
       = Returns ((setup_fw (PROVEN_PATTERNS ! 1))
           \<lparr>currentPattern := PROVEN_PATTERNS ! 0,
            io := io (setup_fw (PROVEN_PATTERNS ! 1))
                  @ [SerialPrint ''PATTERN_LOADED:'', SerialPrintln ''AGC_Lock_5_Second'']\<rparr>)"
  by code_simp

lemma malformed_set_group_energises_relay:
  "level_of (the (reached (processCommand 0 (''SET_GROUP:x'' @ key_group @ '','' @ key_intensity @ ''}'')
       (setup_fw (PROVEN_PATTERNS ! 1))))) RELAY_PIN = Digital True
   \<and> level_of (setup_fw (PROVEN_PATTERNS ! 1)) RELAY_PIN = Digital False"
  by code_simp

section \<open>Emergency and interlock\<close>

lemma emergencyHandler_effect:
  "\<exists>fw'. emergencyHandler fw = NeverReturns fw'
     \<and> currentState fw' = STATE_EMERGENCY \<and> emergencyTriggered fw'
     \<and> channels_off fw' \<and> level_of fw' RELAY_PIN = Digital False
     \<and> currentPattern fw' = currentPattern fw
     \<and> currentPhaseIndex fw' = currentPhaseIndex fw
     \<and> cycleStartTime fw' = cycleStartTime fw
     \<and> globalCycleCount fw' = globalCycleCount fw
     \<and> io fw' = io fw @ emergency_writes"
  by (simp add: emergencyHandler_def emergency_writes_def channels_off_def allLEDsOff_def)

lemma loop_stopped_outside_idle:
  assumes "emergencyTriggered fw \<or> \<not> safety_pin_low inp" and "currentState fw \<noteq> STATE_IDLE"
  shows "loop inp fw = emergencyHandler (fw\<lparr>safetyEngaged := safety_pin_low inp\<rparr>)"
  using assms by (auto simp: loop_def Let_def)

lemma loop_stopped_in_idle:
  assumes "emergencyTriggered fw \<or> \<not> safety_pin_low inp" and "currentState fw = STATE_IDLE"
  shows "loop inp fw = Returns (fw\<lparr>safetyEngaged := safety_pin_low inp\<rparr>)"
  using assms by (auto simp: loop_def Let_def)

lemma loop_latched_settled:
  assumes "emergencyTriggered fw"
  shows "settled (loop inp fw)"
proof (cases "currentState fw = STATE_IDLE")
  case True
  with assms show ?thesis by (simp add: loop_stopped_in_idle)
next
  case False
  with assms emergencyHandler_effect [of "fw\<lparr>safetyEngaged := safety_pin_low inp\<rparr>"]
  show ?thesis by (auto simp: loop_stopped_outside_idle)
qed

lemma step_keeps_settled:
  assumes "settled c"
  shows "settled (step c ev)" and "system_state (step c ev) = system_state c"
  using assms
  by (cases c; cases ev; simp add: system_state_def emergencyISR_def loop_stopped_in_idle)+

lemma run_keeps_settled:
  "settled c \<Longrightarrow> settled (run c evs) \<and> system_state (run c evs) = system_state c"
proof (induction evs arbitrary: c)
  case Nil
  then show ?case by (simp add: run_def)
next
  case (Cons ev evs)
  from Cons.prems have "settled (step c ev)" "system_state (step c ev) = system_state c"
    by (rule step_keeps_settled)+
  with Cons.IH [of "step c ev"] show ?case by (simp add: run_def)
qed

lemma loop_emergency_command:
  assumes h1: "\<not> emergencyTriggered fw" and h2: "safety_pin_low inp"
    and h3: "serial_line inp = Some line" and h4: "trim line = ''EMERGENCY''"
  shows "(\<exists>fw'. loop inp fw = NeverReturns fw'
             \<and> currentState fw' = STATE_EMERGENCY \<and> emergencyTriggered fw'
             \<and> channels_off fw' \<and> level_of fw' RELAY_PIN = Digital False
             \<and> emitted fw fw' = emergency_writes)
        \<and> system_state (run (loop inp fw) evs) = Some STATE_EMERGENCY"
proof -
  let ?fw1 = "fw\<lparr>safetyEngaged := safety_pin_low inp\<rparr>"
  have cmd: "processCommand (millis_command inp) ''EMERGENCY'' ?fw1 = emergencyHandler ?fw1"
    by (simp add: processCommand_def startsWith_def)
  from emergencyHandler_effect [of ?fw1]
  obtain fw' where r: "emergencyHandler ?fw1 = NeverReturns fw'"
    "currentState fw' = STATE_EMERGENCY" "emergencyTriggered fw'" "channels_off fw'"
    "level_of fw' RELAY_PIN = Digital False" "io fw' = io fw @ emergency_writes"
    by auto
  have l: "loop inp fw = NeverReturns fw'"
    using h1 h2 h3 h4 cmd r(1) by (simp add: loop_def Let_def processSerialCommand_def)
  then have "settled (loop inp fw)" by simp
  then have "system_state (run (loop inp fw) evs) = system_state (loop inp fw)"
    by (simp add: run_keeps_settled)
  with l r have "system_state (run (loop inp fw) evs) = Some STATE_EMERGENCY"
    by (simp add: system_state_def)
  with l r show ?thesis by simp
qed

text \<open>
  C1, as stated, holds from every starting state, \<^verbatim>\<open>STATE_IDLE\<close> included. With
  the flag latched in \<^verbatim>\<open>STATE_IDLE\<close> (the interrupt fires right after start-up),
  the next pass of \<^verbatim>\<open>loop\<close> skips \<^verbatim>\<open>emergencyHandler\<close> and returns: the
  state is \<^verbatim>\<open>STATE_IDLE\<close> after that pass and after every later one, not
  \<^verbatim>\<open>STATE_EMERGENCY\<close>.
\<close>

theorem latched_in_idle_stays_idle:
  "emergencyTriggered (emergencyISR (setup_fw (PROVEN_PATTERNS ! 0)))
   \<and> system_state (run (Returns (setup_fw (PROVEN_PATTERNS ! 0)))
        [EmergencyIRQ, LoopPass (engaged_pass (Some ''ARM'') 0)]) = Some STATE_IDLE
   \<and> system_state (run (Returns (setup_fw (PROVEN_PATTERNS ! 0)))
        [EmergencyIRQ, LoopPass (engaged_pass (Some ''ARM'') 0),
         LoopPass (engaged_pass None 1), LoopPass (open_pass None 2)]) = Some STATE_IDLE"
  by code_simp

text \<open>
  C1, amended. Once the flag is latched, the next pass of \<^verbatim>\<open>loop\<close> from any state
  other than \<^verbatim>\<open>STATE_IDLE\<close> enters \<^verbatim>\<open>emergencyHandler\<close> before any command
  or tick: the state is \<^verbatim>\<open>STATE_EMERGENCY\<close>, the four channels and the relay are
  off, and the pass never returns. From \<^verbatim>\<open>STATE_IDLE\<close> the pass returns at once,
  having processed no command and no tick, and the state stays \<^verbatim>\<open>STATE_IDLE\<close>. In
  both cases no later pass or interrupt changes the state. A pass that reads the line
  \<^verbatim>\<open>EMERGENCY\<close>, which it does when the flag is clear and the interlock engaged,
  enters \<^verbatim>\<open>emergencyHandler\<close> from every state, \<^verbatim>\<open>STATE_IDLE\<close> included, with
  the same effect, and no later pass or interrupt changes the state.
\<close>

theorem latched_emergency_next_pass:
  "(emergencyTriggered fw \<and> currentState fw \<noteq> STATE_IDLE
      \<longrightarrow> (\<exists>fw'. loop inp fw = NeverReturns fw'
             \<and> currentState fw' = STATE_EMERGENCY \<and> emergencyTriggered fw'
             \<and> channels_off fw' \<and> level_of fw' RELAY_PIN = Digital False
             \<and> emitted fw fw' = emergency_writes))
   \<and> (emergencyTriggered fw \<and> currentState fw = STATE_IDLE
      \<longrightarrow> loop inp fw = Returns (fw\<lparr>safetyEngaged := safety_pin_low inp\<rparr>))
   \<and> (emergencyTriggered fw
      \<longrightarrow> system_state (run (loop inp fw) evs) = system_state (loop inp fw))
   \<and> (\<not> emergencyTriggered fw \<and> safety_pin_low inp
      \<and> serial_line inp = Some line \<and> trim line = ''EMERGENCY''
      \<longrightarrow> (\<exists>fw'. loop inp fw = NeverReturns fw'
             \<and> currentState fw' = STATE_EMERGENCY \<and> emergencyTriggered fw'
             \<and> channels_off fw' \<and> level_of fw' RELAY_PIN = Digital False
             \<and> emitted fw fw' = emergency_writes)
        \<and> system_state (run (loop inp fw) evs) = Some STATE_EMERGENCY)"
proof (intro conjI impI)
  assume a: "emergencyTriggered fw \<and> currentState fw \<noteq> STATE_IDLE"
  from emergencyHandler_effect [of "fw\<lparr>safetyEngaged := safety_pin_low inp\<rparr>"]
  obtain fw' where "emergencyHandler (fw\<lparr>safetyEngaged := safety_pin_low inp\<rparr>) = NeverReturns fw'"
    "currentState fw' = STATE_EMERGENCY" "emergencyTriggered fw'" "channels_off fw'"
    "level_of fw' RELAY_PIN = Digital False" "io fw' = io fw @ emergency_writes"
    by auto
  with a show "(\<exists>fw'. loop inp fw = NeverReturns fw'
             \<and> currentState fw' = STATE_EMERGENCY \<and> emergencyTriggered fw'
             \<and> channels_off fw' \<and> level_of fw' RELAY_PIN = Digital False
             \<and> emitted fw fw' = emergency_writes)"
    by (simp add: loop_stopped_outside_idle)
next
  assume "emergencyTriggered fw \<and> currentState fw = STATE_IDLE"
  then show "loop inp fw = Returns (fw\<lparr>safetyEngaged := safety_pin_low inp\<rparr>)"
    by (simp add: loop_stopped_in_idle)
next
  assume "emergencyTriggered fw"
  then have "settled (loop inp fw)" by (rule loop_latched_settled)
  then show "system_state (run (loop inp fw) evs) = system_state (loop inp fw)"
    by (simp add: run_keeps_settled)
next
  assume "\<not> emergencyTriggered fw \<and> safety_pin_low inp
      \<and> serial_line inp = Some line \<and> trim line = ''EMERGENCY''"
  with loop_emergency_command [of fw inp line evs]
  show "\<exists>fw'. loop inp fw = NeverReturns fw'
             \<and> currentState fw' = STATE_EMERGENCY \<and> emergencyTriggered fw'
             \<and> channels_off fw' \<and> level_of fw' RELAY_PIN = Digital False
             \<and> emitted fw fw' = emergency_writes"
    by blast
next
  assume "\<not> emergencyTriggered fw \<and> safety_pin_low inp
      \<and> serial_line inp = Some line \<and> trim line = ''EMERGENCY''"
  with loop_emergency_command [of fw inp line evs]
  show "system_state (run (loop inp fw) evs) = Some STATE_EMERGENCY"
    by blast
qed

theorem latched_emergency_witness:
  "emergencyTriggered (emergencyISR mid_cycle)
   \<and> currentState (emergencyISR mid_cycle) \<noteq> STATE_IDLE
   \<and> (\<exists>fw'. loop (engaged_pass (Some ''STOP_CYCLE'') 5460) (emergencyISR mid_cycle)
               = NeverReturns fw'
             \<and> currentState fw' = STATE_EMERGENCY \<and> emergencyTriggered fw'
             \<and> channels_off fw' \<and> level_of fw' RELAY_PIN = Digital False
             \<and> emitted (emergencyISR mid_cycle) fw' = emergency_writes)
   \<and> system_state (run (loop (engaged_pass (Some ''STOP_CYCLE'') 5460) (emergencyISR mid_cycle))
         [LoopPass (engaged_pass (Some ''ARM'') 5470)])
       = system_state (loop (engaged_pass (Some ''STOP_CYCLE'') 5460) (emergencyISR mid_cycle))
   \<and> emergencyTriggered (emergencyISR (setup_fw (PROVEN_PATTERNS ! 0)))
   \<and> currentState (emergencyISR (setup_fw (PROVEN_PATTERNS ! 0))) = STATE_IDLE
   \<and> loop (engaged_pass (Some ''ARM'') 0) (emergencyISR (setup_fw (PROVEN_PATTERNS ! 0)))
       = Returns ((emergencyISR (setup_fw (PROVEN_PATTERNS ! 0)))
           \<lparr>safetyEngaged := safety_pin_low (engaged_pass (Some ''ARM'') 0)\<rparr>)
   \<and> \<not> emergencyTriggered (setup_fw (PROVEN_PATTERNS ! 0))
   \<and> safety_pin_low (engaged_pass (Some ''EMERGENCY'') 0)
   \<and> serial_line (engaged_pass (Some ''EMERGENCY'') 0) = Some ''EMERGENCY''
   \<and> trim ''EMERGENCY'' = ''EMERGENCY''
   \<and> currentState (setup_fw (PROVEN_PATTERNS ! 0)) = STATE_IDLE
   \<and> (\<exists>fw'. loop (engaged_pass (Some ''EMERGENCY'') 0) (setup_fw (PROVEN_PATTERNS ! 0))
               = NeverReturns fw'
             \<and> currentState fw' = STATE_EMERGENCY \<and> emergencyTriggered fw'
             \<and> channels_off fw' \<and> level_of fw' RELAY_PIN = Digital False
             \<and> emitted (setup_fw (PROVEN_PATTERNS ! 0)) fw' = emergency_writes)
   \<and> system_state (run (loop (engaged_pass (Some ''EMERGENCY'') 0)
         (setup_fw (PROVEN_PATTERNS ! 0))) [LoopPass (engaged_pass (Some ''DISARM'') 10)])
       = Some STATE_EMERGENCY"
proof -
  have a: "emergencyTriggered (emergencyISR mid_cycle)
      \<and> currentState (emergencyISR mid_cycle) \<noteq> STATE_IDLE"
    by code_simp
  have b: "emergencyTriggered (emergencyISR (setup_fw (PROVEN_PATTERNS ! 0)))
      \<and> currentState (emergencyISR (setup_fw (PROVEN_PATTERNS ! 0))) = STATE_IDLE"
    by code_simp
  have c: "\<not> emergencyTriggered (setup_fw (PROVEN_PATTERNS ! 0))
      \<and> safety_pin_low (engaged_pass (Some ''EMERGENCY'') 0)
      \<and> serial_line (engaged_pass (Some ''EMERGENCY'') 0) = Some ''EMERGENCY''
      \<and> trim ''EMERGENCY'' = ''EMERGENCY''"
    by code_simp
  have d: "currentState (setup_fw (PROVEN_PATTERNS ! 0)) = STATE_IDLE"
    by code_simp
  show ?thesis
    using a b c d
      latched_emergency_next_pass [of "emergencyISR mid_cycle"
        "engaged_pass (Some ''STOP_CYCLE'') 5460" "[LoopPass (engaged_pass (Some ''ARM'') 5470)]"
        "''STOP_CYCLE''"]
      latched_emergency_next_pass [of "emergencyISR (setup_fw (PROVEN_PATTERNS ! 0))"
        "engaged_pass (Some ''ARM'') 0" "[]" "''ARM''"]
      latched_emergency_next_pass [of "setup_fw (PROVEN_PATTERNS ! 0)"
        "engaged_pass (Some ''EMERGENCY'') 0" "[LoopPass (engaged_pass (Some ''DISARM'') 10)]"
        "''EMERGENCY''"]
    by blast
qed

text \<open>
  C2, as stated, has an open interlock freeze a running cycle without forcing the
  emergency state. In \<open>mid_cycle\<close> the firmware is cycling with the flag clear and
  the hat channel at duty 255; a pass that reads the interlock open ends in
  \<^verbatim>\<open>STATE_EMERGENCY\<close> with the channel low.
\<close>

theorem open_interlock_mid_cycle:
  "currentState mid_cycle = STATE_CYCLING
   \<and> \<not> emergencyTriggered mid_cycle
   \<and> level_of mid_cycle HAT_PIN = Pwm 255
   \<and> loop (open_pass None 5460) mid_cycle
       = NeverReturns (the (reached (loop (open_pass None 5460) mid_cycle)))
   \<and> currentState (the (reached (loop (open_pass None 5460) mid_cycle))) = STATE_EMERGENCY
   \<and> level_of (the (reached (loop (open_pass None 5460) mid_cycle))) HAT_PIN = Digital False"
  by code_simp

text \<open>
  C2, amended. A pass that reads the interlock open while the state is
  \<^verbatim>\<open>STATE_CYCLING\<close> and the flag is clear enters \<^verbatim>\<open>emergencyHandler\<close>: no
  command or tick is processed and the phase index, the phase start time and the cycle
  count keep their values, but the channels and the relay are switched off, the flag is
  latched, the state becomes \<^verbatim>\<open>STATE_EMERGENCY\<close> and the pass never returns. An
  open interlock leaves the state alone only in \<^verbatim>\<open>STATE_IDLE\<close>.
\<close>

theorem open_interlock_forces_emergency:
  "(currentState fw = STATE_CYCLING \<and> \<not> emergencyTriggered fw \<and> \<not> safety_pin_low inp
      \<longrightarrow> (\<exists>fw'. loop inp fw = NeverReturns fw'
             \<and> currentState fw' = STATE_EMERGENCY \<and> emergencyTriggered fw'
             \<and> channels_off fw' \<and> level_of fw' RELAY_PIN = Digital False
             \<and> currentPattern fw' = currentPattern fw
             \<and> currentPhaseIndex fw' = currentPhaseIndex fw
             \<and> cycleStartTime fw' = cycleStartTime fw
             \<and> globalCycleCount fw' = globalCycleCount fw
             \<and> emitted fw fw' = emergency_writes))
   \<and> (currentState fw = STATE_IDLE \<and> \<not> safety_pin_low inp
      \<longrightarrow> loop inp fw = Returns (fw\<lparr>safetyEngaged := False\<rparr>))"
proof (intro conjI impI)
  assume a: "currentState fw = STATE_CYCLING \<and> \<not> emergencyTriggered fw \<and> \<not> safety_pin_low inp"
  from emergencyHandler_effect [of "fw\<lparr>safetyEngaged := safety_pin_low inp\<rparr>"]
  obtain fw' where "emergencyHandler (fw\<lparr>safetyEngaged := safety_pin_low inp\<rparr>) = NeverReturns fw'"
    "currentState fw' = STATE_EMERGENCY" "emergencyTriggered fw'" "channels_off fw'"
    "level_of fw' RELAY_PIN = Digital False" "io fw' = io fw @ emergency_writes"
    "currentPattern fw' = currentPattern fw" "currentPhaseIndex fw' = currentPhaseIndex fw"
    "cycleStartTime fw' = cycleStartTime fw" "globalCycleCount fw' = globalCycleCount fw"
    by auto
  with a show "\<exists>fw'. loop inp fw = NeverReturns fw'
             \<and> currentState fw' = STATE_EMERGENCY \<and> emergencyTriggered fw'
             \<and> channels_off fw' \<and> level_of fw' RELAY_PIN = Digital False
             \<and> currentPattern fw' = currentPattern fw
             \<and> currentPhaseIndex fw' = currentPhaseIndex fw
             \<and> cycleStartTime fw' = cycleStartTime fw
             \<and> globalCycleCount fw' = globalCycleCount fw
             \<and> emitted fw fw' = emergency_writes"
    by (simp add: loop_stopped_outside_idle)
next
  assume "currentState fw = STATE_IDLE \<and> \<not> safety_pin_low inp"
  then show "loop inp fw = Returns (fw\<lparr>safetyEngaged := False\<rparr>)"
    using loop_stopped_in_idle [of fw inp] by simp
qed

theorem open_interlock_witness:
  "currentState mid_cycle = STATE_CYCLING \<and> \<not> emergencyTriggered mid_cycle
   \<and> \<not> safety_pin_low (open_pass None 5460)
   \<and> (\<exists>fw'. loop (open_pass None 5460) mid_cycle = NeverReturns fw'
             \<and> currentState fw' = STATE_EMERGENCY \<and> emergencyTriggered fw'
             \<and> channels_off fw' \<and> level_of fw' RELAY_PIN = Digital False
             \<and> currentPattern fw' = currentPattern mid_cycle
             \<and> currentPhaseIndex fw' = currentPhaseIndex mid_cycle
             \<and> cycleStartTime fw' = cycleStartTime mid_cycle
             \<and> globalCycleCount fw' = globalCycleCount mid_cycle
             \<and> emitted mid_cycle fw' = emergency_writes)
   \<and> currentState (setup_fw (PROVEN_PATTERNS ! 0)) = STATE_IDLE
   \<and> loop (open_pass None 5460) (setup_fw (PROVEN_PATTERNS ! 0))
       = Returns ((setup_fw (PROVEN_PATTERNS ! 0))\<lparr>safetyEngaged := False\<rparr>)"
proof -
  have a: "currentState mid_cycle = STATE_CYCLING \<and> \<not> emergencyTriggered mid_cycle
      \<and> \<not> safety_pin_low (open_pass None 5460)"
    by code_simp
  have b: "currentState (setup_fw (PROVEN_PATTERNS ! 0)) = STATE_IDLE"
    by code_simp
  show ?thesis
    using a b
      open_interlock_forces_emergency [of mid_cycle "open_pass None 5460"]
      open_interlock_forces_emergency [of "setup_fw (PROVEN_PATTERNS ! 0)" "open_pass None 5460"]
    by blast
qed

section \<open>The phase timer\<close>

lemma unat_index_succ:
  fixes i :: u8
  assumes "unat i < 20"
  shows "unat (i + 1) = unat i + 1"
  using assms by (simp add: unat_word_ariths)

lemma phase_at_in_bounds:
  "unat i < PHASE_CAPACITY \<Longrightarrow> \<exists>ph. phase_at p i = Some ph"
  by (simp add: phase_at_def)

lemma tick_not_cycling:
  "currentState fw \<noteq> STATE_CYCLING \<Longrightarrow> processAutonomousCycle now fw = Returns fw"
  by (simp add: processAutonomousCycle_def)

lemma tick_not_due:
  assumes "currentState fw = STATE_CYCLING"
    and "phase_at (currentPattern fw) (currentPhaseIndex fw) = Some ph"
    and "\<not> ucast (durationMs ph) \<le> now - cycleStartTime fw"
  shows "processAutonomousCycle now fw = Returns fw"
  using assms by (simp add: processAutonomousCycle_def)

lemma tick_due:
  assumes "currentState fw = STATE_CYCLING"
    and "phase_at (currentPattern fw) (currentPhaseIndex fw) = Some ph"
    and "ucast (durationMs ph) \<le> now - cycleStartTime fw"
  shows "\<exists>fw'. processAutonomousCycle now fw = Returns fw'
     \<and> outputs fw' = outputs (setLEDGroup (ledGroup ph) (intensity ph) fw)
     \<and> currentPhaseIndex fw' =
         (if unat (currentPhaseIndex fw + 1) \<ge> unat (phaseCount (currentPattern fw))
          then 0 else currentPhaseIndex fw + 1)
     \<and> globalCycleCount fw' =
         (if unat (currentPhaseIndex fw + 1) \<ge> unat (phaseCount (currentPattern fw))
          then globalCycleCount fw + 1 else globalCycleCount fw)
     \<and> cycleStartTime fw' = now
     \<and> io fw' = io (setLEDGroup (ledGroup ph) (intensity ph) fw)
         @ (if unat (currentPhaseIndex fw + 1) \<ge> unat (phaseCount (currentPattern fw))
            then cycle_complete (globalCycleCount fw + 1) else [])
     \<and> currentState fw' = STATE_CYCLING
     \<and> currentPattern fw' = currentPattern fw
     \<and> emergencyTriggered fw' = emergencyTriggered fw
     \<and> safetyEngaged fw' = safetyEngaged fw"
  using assms
  by (simp add: processAutonomousCycle_def executeCurrentPhase_def Let_def cycle_complete_def)

lemma two_phase_example:
  "globalCycleCount (the (reached (two_phase_run ticks_every_10ms))) = 2
   \<and> currentPhaseIndex (the (reached (two_phase_run ticks_every_10ms))) = 0
   \<and> cycleStartTime (the (reached (two_phase_run ticks_every_10ms))) = 200
   \<and> emitted (the (reached (two_phase_run []))) (the (reached (two_phase_run ticks_every_10ms)))
       = [DigitalWrite RELAY_PIN True, AnalogWrite HAT_PIN 255,
          DigitalWrite RELAY_PIN True, AnalogWrite HOODIE_PIN 128,
          SerialPrint ''CYCLE_COMPLETE:'', SerialPrintlnNum 1,
          DigitalWrite RELAY_PIN True, AnalogWrite HAT_PIN 255,
          DigitalWrite RELAY_PIN True, AnalogWrite HOODIE_PIN 128,
          SerialPrint ''CYCLE_COMPLETE:'', SerialPrintlnNum 2]"
  by code_simp

text \<open>
  C4. While cycling, with the index inside the array, a tick whose time satisfies
  \<^verbatim>\<open>now - cycleStartTime >= durationMs\<close> of the current phase makes one call of
  \<^verbatim>\<open>setLEDGroup\<close> with the group and intensity of that phase, moves the index to the
  next phase, or to 0 with the cycle count increased by one and the report printed when
  there is no next phase (\<^verbatim>\<open>phaseCount <= index + 1\<close>), and sets the phase start
  time to \<open>now\<close>; the index is inside the pattern afterwards. A tick before that time
  changes nothing. The pattern of two 50 ms phases ticked every 10 ms up to 220 ms applies
  phase 0, phase 1, phase 0, phase 1 and completes two cycles. (The count is 32 bits wide
  and the time difference is taken modulo \<open>2^32\<close>, as in the source.)
\<close>

theorem tick_applies_phase_once:
  "(currentState fw = STATE_CYCLING
      \<and> unat (currentPhaseIndex fw) < PHASE_CAPACITY
    \<longrightarrow> (\<exists>ph. phase_at (currentPattern fw) (currentPhaseIndex fw) = Some ph
          \<and> (ucast (durationMs ph) \<le> now - cycleStartTime fw
              \<longrightarrow> (\<exists>fw'. processAutonomousCycle now fw = Returns fw'
                    \<and> outputs fw' = outputs (setLEDGroup (ledGroup ph) (intensity ph) fw)
                    \<and> io fw' = io (setLEDGroup (ledGroup ph) (intensity ph) fw)
                        @ (if unat (phaseCount (currentPattern fw)) \<le> unat (currentPhaseIndex fw) + 1
                           then cycle_complete (globalCycleCount fw + 1) else [])
                    \<and> unat (currentPhaseIndex fw') =
                        (if unat (phaseCount (currentPattern fw)) \<le> unat (currentPhaseIndex fw) + 1
                         then 0 else unat (currentPhaseIndex fw) + 1)
                    \<and> globalCycleCount fw' =
                        (if unat (phaseCount (currentPattern fw)) \<le> unat (currentPhaseIndex fw) + 1
                         then globalCycleCount fw + 1 else globalCycleCount fw)
                    \<and> cycleStartTime fw' = now
                    \<and> unat (currentPhaseIndex fw') < max (unat (phaseCount (currentPattern fw'))) 1
                    \<and> currentState fw' = STATE_CYCLING
                    \<and> currentPattern fw' = currentPattern fw))
          \<and> (\<not> ucast (durationMs ph) \<le> now - cycleStartTime fw
              \<longrightarrow> processAutonomousCycle now fw = Returns fw)))
   \<and> globalCycleCount (the (reached (two_phase_run ticks_every_10ms))) = 2
   \<and> emitted (the (reached (two_phase_run []))) (the (reached (two_phase_run ticks_every_10ms)))
       = [DigitalWrite RELAY_PIN True, AnalogWrite HAT_PIN 255,
          DigitalWrite RELAY_PIN True, AnalogWrite HOODIE_PIN 128,
          SerialPrint ''CYCLE_COMPLETE:'', SerialPrintlnNum 1,
          DigitalWrite RELAY_PIN True, AnalogWrite HAT_PIN 255,
          DigitalWrite RELAY_PIN True, AnalogWrite HOODIE_PIN 128,
          SerialPrint ''CYCLE_COMPLETE:'', SerialPrintlnNum 2]"
proof (intro conjI impI)
  assume a: "currentState fw = STATE_CYCLING
      \<and> unat (currentPhaseIndex fw) < PHASE_CAPACITY"
  then have lt: "unat (currentPhaseIndex fw) < 20"
    by (simp add: PHASE_CAPACITY_def)
  then obtain ph where ph: "phase_at (currentPattern fw) (currentPhaseIndex fw) = Some ph"
    using phase_at_in_bounds [of "currentPhaseIndex fw" "currentPattern fw"]
    by (auto simp: PHASE_CAPACITY_def)
  have succ: "unat (currentPhaseIndex fw + 1) = unat (currentPhaseIndex fw) + 1"
    using lt by (rule unat_index_succ)
  have due: "(\<exists>fw'. processAutonomousCycle now fw = Returns fw'
                    \<and> outputs fw' = outputs (setLEDGroup (ledGroup ph) (intensity ph) fw)
                    \<and> io fw' = io (setLEDGroup (ledGroup ph) (intensity ph) fw)
                        @ (if unat (phaseCount (currentPattern fw)) \<le> unat (currentPhaseIndex fw) + 1
                           then cycle_complete (globalCycleCount fw + 1) else [])
                    \<and> unat (currentPhaseIndex fw') =
                        (if unat (phaseCount (currentPattern fw)) \<le> unat (currentPhaseIndex fw) + 1
                         then 0 else unat (currentPhaseIndex fw) + 1)
                    \<and> globalCycleCount fw' =
                        (if unat (phaseCount (currentPattern fw)) \<le> unat (currentPhaseIndex fw) + 1
                         then globalCycleCount fw + 1 else globalCycleCount fw)
                    \<and> cycleStartTime fw' = now
                    \<and> unat (currentPhaseIndex fw') < max (unat (phaseCount (currentPattern fw'))) 1
                    \<and> currentState fw' = STATE_CYCLING
                    \<and> currentPattern fw' = currentPattern fw)"
    if "ucast (durationMs ph) \<le> now - cycleStartTime fw"
  proof -
    from a ph that tick_due [of fw ph now] obtain fw' where
      r: "processAutonomousCycle now fw = Returns fw'"
      "outputs fw' = outputs (setLEDGroup (ledGroup ph) (intensity ph) fw)"
      "currentPhaseIndex fw' =
         (if unat (currentPhaseIndex fw + 1) \<ge> unat (phaseCount (currentPattern fw))
          then 0 else currentPhaseIndex fw + 1)"
      "globalCycleCount fw' =
         (if unat (currentPhaseIndex fw + 1) \<ge> unat (phaseCount (currentPattern fw))
          then globalCycleCount fw + 1 else globalCycleCount fw)"
      "cycleStartTime fw' = now"
      "io fw' = io (setLEDGroup (ledGroup ph) (intensity ph) fw)
         @ (if unat (currentPhaseIndex fw + 1) \<ge> unat (phaseCount (currentPattern fw))
            then cycle_complete (globalCycleCount fw + 1) else [])"
      "currentState fw' = STATE_CYCLING" "currentPattern fw' = currentPattern fw"
      by blast
    have idx: "unat (currentPhaseIndex fw') =
        (if unat (phaseCount (currentPattern fw)) \<le> unat (currentPhaseIndex fw) + 1
         then 0 else unat (currentPhaseIndex fw) + 1)"
      using r(3) succ by simp
    then have "unat (currentPhaseIndex fw') < max (unat (phaseCount (currentPattern fw'))) 1"
      using r(8) by (auto simp: max_def split: if_splits)
    with idx r succ show ?thesis by simp
  qed
  have idle: "processAutonomousCycle now fw = Returns fw"
    if "\<not> ucast (durationMs ph) \<le> now - cycleStartTime fw"
    using a ph that by (simp add: tick_not_due)
  from ph due idle
  show "(\<exists>ph. phase_at (currentPattern fw) (currentPhaseIndex fw) = Some ph
          \<and> (ucast (durationMs ph) \<le> now - cycleStartTime fw
              \<longrightarrow> (\<exists>fw'. processAutonomousCycle now fw = Returns fw'
                    \<and> outputs fw' = outputs (setLEDGroup (ledGroup ph) (intensity ph) fw)
                    \<and> io fw' = io (setLEDGroup (ledGroup ph) (intensity ph) fw)
                        @ (if unat (phaseCount (currentPattern fw)) \<le> unat (currentPhaseIndex fw) + 1
                           then cycle_complete (globalCycleCount fw + 1) else [])
                    \<and> unat (currentPhaseIndex fw') =
                        (if unat (phaseCount (currentPattern fw)) \<le> unat (currentPhaseIndex fw) + 1
                         then 0 else unat (currentPhaseIndex fw) + 1)
                    \<and> globalCycleCount fw' =
                        (if unat (phaseCount (currentPattern fw)) \<le> unat (currentPhaseIndex fw) + 1
                         then globalCycleCount fw + 1 else globalCycleCount fw)
                    \<and> cycleStartTime fw' = now
                    \<and> unat (currentPhaseIndex fw') < max (unat (phaseCount (currentPattern fw'))) 1
                    \<and> currentState fw' = STATE_CYCLING
                    \<and> currentPattern fw' = currentPattern fw))
          \<and> (\<not> ucast (durationMs ph) \<le> now - cycleStartTime fw
              \<longrightarrow> processAutonomousCycle now fw = Returns fw))"
    by blast
qed (use two_phase_example in simp_all)

theorem tick_witness:
  "currentState (the (reached (two_phase_run []))) = STATE_CYCLING
   \<and> unat (currentPhaseIndex (the (reached (two_phase_run [])))) < PHASE_CAPACITY
   \<and> ucast (durationMs (mk_phase 0 50 255))
       \<le> (50 :: u32) - cycleStartTime (the (reached (two_phase_run [])))
   \<and> \<not> ucast (durationMs (mk_phase 0 50 255))
       \<le> (10 :: u32) - cycleStartTime (the (reached (two_phase_run [])))
   \<and> (\<exists>fw'. processAutonomousCycle 50 (the (reached (two_phase_run []))) = Returns fw'
          \<and> outputs fw' = outputs (setLEDGroup (ledGroup (mk_phase 0 50 255))
                (intensity (mk_phase 0 50 255)) (the (reached (two_phase_run []))))
          \<and> cycleStartTime fw' = 50)
   \<and> processAutonomousCycle 10 (the (reached (two_phase_run [])))
       = Returns (the (reached (two_phase_run [])))"
proof -
  have a: "currentState (the (reached (two_phase_run []))) = STATE_CYCLING
   \<and> unat (currentPhaseIndex (the (reached (two_phase_run [])))) < PHASE_CAPACITY"
    by code_simp
  have b: "phase_at (currentPattern (the (reached (two_phase_run []))))
      (currentPhaseIndex (the (reached (two_phase_run [])))) = Some (mk_phase 0 50 255)"
    by code_simp
  have c: "ucast (durationMs (mk_phase 0 50 255))
       \<le> (50 :: u32) - cycleStartTime (the (reached (two_phase_run [])))"
    by code_simp
  have d: "\<not> ucast (durationMs (mk_phase 0 50 255))
       \<le> (10 :: u32) - cycleStartTime (the (reached (two_phase_run [])))"
    by code_simp
  from a b c tick_applies_phase_once [of "the (reached (two_phase_run []))" 50]
  have e: "\<exists>fw'. processAutonomousCycle 50 (the (reached (two_phase_run []))) = Returns fw'
          \<and> outputs fw' = outputs (setLEDGroup (ledGroup (mk_phase 0 50 255))
                (intensity (mk_phase 0 50 255)) (the (reached (two_phase_run []))))
          \<and> cycleStartTime fw' = 50"
    by auto
  from a b d tick_applies_phase_once [of "the (reached (two_phase_run []))" 10]
  have f: "processAutonomousCycle 10 (the (reached (two_phase_run [])))
       = Returns (the (reached (two_phase_run [])))"
    by auto
  from a c d e f show ?thesis by blast
qed

section \<open>The phase index stays inside the array\<close>

lemma catalog_shape:
  assumes "p \<in> set PROVEN_PATTERNS"
  shows "length (phases p) = unat (phaseCount p)" and "unat (phaseCount p) \<le> PHASE_CAPACITY"
    and "0 < unat (phaseCount p)"
  using assms by (auto simp: PROVEN_PATTERNS_def PHASE_CAPACITY_def)

lemma catalog_padding:
  assumes "p \<in> set PROVEN_PATTERNS" and "unat i < PHASE_CAPACITY"
    and "\<not> unat i < unat (phaseCount p)"
  shows "phase_at p i = Some zero_phase"
  using assms catalog_shape(1) [of p] by (simp add: phase_at_def)

lemma cursor_ok_setup:
  "unat (phaseCount stored) \<le> PHASE_CAPACITY \<Longrightarrow> cursor_ok (setup_fw stored)"
  by (simp add: cursor_ok_def setup_fw_def PHASE_CAPACITY_def)

lemma cursor_ok_cong:
  assumes "cursor_ok fw" and "currentPhaseIndex fw' = currentPhaseIndex fw"
    and "currentPattern fw' = currentPattern fw"
    and "currentState fw' = STATE_CYCLING \<longrightarrow> currentState fw = STATE_CYCLING"
  shows "cursor_ok fw'"
  using assms by (auto simp: cursor_ok_def)

lemma cursor_ok_load:
  assumes "cursor_ok fw"
  shows "cursor_ok (loadPatternCommand cmd fw)"
proof (cases "currentPattern (loadPatternCommand cmd fw) = currentPattern fw")
  case True
  with assms show ?thesis by (auto intro: cursor_ok_cong)
next
  case False
  with loadPatternCommand_pattern [of cmd fw]
  have mem: "currentPattern (loadPatternCommand cmd fw) \<in> set PROVEN_PATTERNS" by simp
  let ?p = "currentPattern (loadPatternCommand cmd fw)"
  let ?i = "currentPhaseIndex fw"
  from assms have i: "unat ?i < PHASE_CAPACITY" by (simp add: cursor_ok_def)
  have "unat ?i < max (unat (phaseCount ?p)) 1
        \<or> (\<exists>ph. phase_at ?p ?i = Some ph \<and> durationMs ph = 0)"
  proof (cases "unat ?i < unat (phaseCount ?p)")
    case True
    then show ?thesis by simp
  next
    case False
    with mem i have "phase_at ?p ?i = Some zero_phase" by (rule catalog_padding)
    then show ?thesis by (simp add: zero_phase_def)
  qed
  with i catalog_shape(2) [OF mem] show ?thesis
    by (simp add: cursor_ok_def)
qed

lemma processCommand_cursor_cases:
  assumes "reached (processCommand now cmd fw) = Some fw'"
  shows "fw' = loadPatternCommand cmd fw
       \<or> (currentPhaseIndex fw' = currentPhaseIndex fw \<and> currentPattern fw' = currentPattern fw
           \<and> (currentState fw' = currentState fw \<or> currentState fw' \<noteq> STATE_CYCLING))
       \<or> (currentState fw = STATE_ARMED \<and> currentPhaseIndex fw' = 0
           \<and> currentPattern fw' = currentPattern fw)"
  using assms
  by (auto simp: processCommand_def emergencyHandler_def split: if_splits)

lemma cursor_ok_command:
  assumes "cursor_ok fw" and "reached (processCommand now cmd fw) = Some fw'"
  shows "cursor_ok fw'"
proof -
  consider "fw' = loadPatternCommand cmd fw"
    | "currentPhaseIndex fw' = currentPhaseIndex fw" "currentPattern fw' = currentPattern fw"
      "currentState fw' = currentState fw \<or> currentState fw' \<noteq> STATE_CYCLING"
    | "currentPhaseIndex fw' = 0" "currentPattern fw' = currentPattern fw"
    using processCommand_cursor_cases [OF assms(2)] by blast
  then show ?thesis
  proof cases
    case 1
    with assms(1) show ?thesis by (simp add: cursor_ok_load)
  next
    case 2
    with assms(1) show ?thesis by (auto intro: cursor_ok_cong)
  next
    case 3
    with assms(1) show ?thesis
      by (simp add: cursor_ok_def PHASE_CAPACITY_def max_def)
  qed
qed

lemma cursor_ok_tick:
  assumes "cursor_ok fw"
  shows "\<exists>fw'. processAutonomousCycle now fw = Returns fw' \<and> cursor_ok fw'
           \<and> currentState fw' = currentState fw
           \<and> emergencyTriggered fw' = emergencyTriggered fw
           \<and> (currentState fw = STATE_CYCLING \<longrightarrow>
                unat (currentPhaseIndex fw') < max (unat (phaseCount (currentPattern fw'))) 1)
           \<and> (currentState fw \<noteq> STATE_CYCLING \<longrightarrow> fw' = fw)"
proof (cases "currentState fw = STATE_CYCLING")
  case False
  with assms show ?thesis by (simp add: tick_not_cycling)
next
  case True
  from assms have i: "unat (currentPhaseIndex fw) < 20"
    and pc: "unat (phaseCount (currentPattern fw)) \<le> 20"
    by (simp_all add: cursor_ok_def PHASE_CAPACITY_def)
  from i obtain ph where ph: "phase_at (currentPattern fw) (currentPhaseIndex fw) = Some ph"
    using phase_at_in_bounds [of "currentPhaseIndex fw" "currentPattern fw"]
    by (auto simp: PHASE_CAPACITY_def)
  show ?thesis
  proof (cases "ucast (durationMs ph) \<le> now - cycleStartTime fw")
    case due: True
    from tick_due [OF True ph due] obtain fw' where
      r: "processAutonomousCycle now fw = Returns fw'"
      "currentPhaseIndex fw' =
         (if unat (currentPhaseIndex fw + 1) \<ge> unat (phaseCount (currentPattern fw))
          then 0 else currentPhaseIndex fw + 1)"
      "currentState fw' = STATE_CYCLING" "currentPattern fw' = currentPattern fw"
      "emergencyTriggered fw' = emergencyTriggered fw"
      by blast
    have "unat (currentPhaseIndex fw') < max (unat (phaseCount (currentPattern fw'))) 1"
      using r(2,4) by (auto simp: max_def)
    moreover from this pc r(4) have "unat (currentPhaseIndex fw') < 20"
      by (auto simp: max_def split: if_splits)
    ultimately show ?thesis
      using r True pc by (simp add: cursor_ok_def PHASE_CAPACITY_def)
  next
    case False
    then have "durationMs ph \<noteq> 0" by auto
    with True ph assms
    have "unat (currentPhaseIndex fw) < max (unat (phaseCount (currentPattern fw))) 1"
      by (auto simp: cursor_ok_def)
    with True ph False assms show ?thesis by (simp add: tick_not_due)
  qed
qed

lemma cursor_ok_loop:
  assumes "cursor_ok fw"
  shows "\<exists>fw'. reached (loop inp fw) = Some fw' \<and> cursor_ok fw'"
proof (cases "emergencyTriggered fw \<or> \<not> safety_pin_low inp")
  case True
  have "cursor_ok (fw\<lparr>safetyEngaged := safety_pin_low inp\<rparr>)"
    using assms by (auto intro: cursor_ok_cong)
  moreover have "cursor_ok g" if "emergencyHandler (fw\<lparr>safetyEngaged := safety_pin_low inp\<rparr>)
      = NeverReturns g" for g
    using that assms emergencyHandler_effect [of "fw\<lparr>safetyEngaged := safety_pin_low inp\<rparr>"]
    by (auto intro: cursor_ok_cong)
  ultimately show ?thesis
    using True emergencyHandler_effect [of "fw\<lparr>safetyEngaged := safety_pin_low inp\<rparr>"]
    by (cases "currentState fw = STATE_IDLE")
       (auto simp: loop_stopped_in_idle loop_stopped_outside_idle)
next
  case False
  let ?fw1 = "fw\<lparr>safetyEngaged := safety_pin_low inp\<rparr>"
  have ok1: "cursor_ok ?fw1" using assms by (auto intro: cursor_ok_cong)
  have loop: "loop inp fw =
      (case processSerialCommand (millis_command inp) (serial_line inp) ?fw1 of
         Returns fw2 \<Rightarrow> processAutonomousCycle (millis_tick inp) fw2
       | NeverReturns fw2 \<Rightarrow> NeverReturns fw2
       | OutOfBounds \<Rightarrow> OutOfBounds)"
    using False by (simp add: loop_def Let_def)
  have "\<exists>g. reached (processSerialCommand (millis_command inp) (serial_line inp) ?fw1) = Some g
      \<and> cursor_ok g"
  proof (cases "serial_line inp")
    case None
    with ok1 show ?thesis by (simp add: processSerialCommand_def)
  next
    case (Some line)
    have "processCommand (millis_command inp) (trim line) ?fw1 \<noteq> OutOfBounds"
      by (simp add: processCommand_def emergencyHandler_def)
    then obtain g where "reached (processCommand (millis_command inp) (trim line) ?fw1) = Some g"
      by (cases "processCommand (millis_command inp) (trim line) ?fw1") auto
    with cursor_ok_command [OF ok1 this] Some show ?thesis
      by (simp add: processSerialCommand_def)
  qed
  then obtain g where g: "reached (processSerialCommand (millis_command inp) (serial_line inp) ?fw1)
      = Some g" "cursor_ok g" by blast
  show ?thesis
  proof (cases "processSerialCommand (millis_command inp) (serial_line inp) ?fw1")
    case (Returns fw2)
    with g have "cursor_ok fw2" by simp
    from cursor_ok_tick [OF this, of "millis_tick inp"] Returns loop show ?thesis by auto
  next
    case (NeverReturns fw2)
    with g loop show ?thesis by simp
  next
    case OutOfBounds
    with g show ?thesis by simp
  qed
qed

lemma cursor_ok_run:
  assumes "cursor_ok fw" and "reached c = Some fw"
  shows "\<exists>fw'. reached (run c evs) = Some fw' \<and> cursor_ok fw'"
  using assms
proof (induction evs arbitrary: c fw)
  case Nil
  then show ?case by (simp add: run_def)
next
  case (Cons ev evs)
  have "\<exists>g. reached (step c ev) = Some g \<and> cursor_ok g"
  proof (cases c)
    case (Returns f)
    with Cons.prems have f: "f = fw" by simp
    show ?thesis
    proof (cases ev)
      case EmergencyIRQ
      have "cursor_ok (emergencyISR fw)"
        using Cons.prems(1) by (auto intro: cursor_ok_cong simp: emergencyISR_def)
      with Returns f EmergencyIRQ show ?thesis by simp
    next
      case (LoopPass inp)
      with Returns f cursor_ok_loop [OF Cons.prems(1), of inp] show ?thesis by simp
    qed
  next
    case (NeverReturns f)
    with Cons.prems have f: "f = fw" by simp
    have "cursor_ok (emergencyISR fw)"
      using Cons.prems(1) by (auto intro: cursor_ok_cong simp: emergencyISR_def)
    with NeverReturns f Cons.prems(1) show ?thesis by (cases ev) simp_all
  next
    case OutOfBounds
    with Cons.prems show ?thesis by simp
  qed
  then obtain g where "reached (step c ev) = Some g" "cursor_ok g" by blast
  from Cons.IH [OF this(2,1)] show ?case by (simp add: run_def)
qed

text \<open>
  C9, as stated, has every call of \<^verbatim>\<open>processAutonomousCycle\<close> leave the index
  below \<open>max phaseCount 1\<close>. After one cycle and one phase of the first catalog
  pattern, \<^verbatim>\<open>STOP_CYCLE\<close> and \<^verbatim>\<open>LOAD_PATTERN:1\<close> leave the firmware armed
  with index 1 and a pattern of one phase; the call returns at its first line and the
  index is still 1.
\<close>

theorem stale_index_outside_cycling:
  "unat (phaseCount (PROVEN_PATTERNS ! 0)) \<le> PHASE_CAPACITY
   \<and> currentState stopped_and_reloaded = STATE_ARMED
   \<and> unat (currentPhaseIndex stopped_and_reloaded) = 1
   \<and> unat (phaseCount (currentPattern stopped_and_reloaded)) = 1
   \<and> processAutonomousCycle 5480 stopped_and_reloaded = Returns stopped_and_reloaded
   \<and> \<not> unat (currentPhaseIndex stopped_and_reloaded)
         < max (unat (phaseCount (currentPattern stopped_and_reloaded))) 1"
  by code_simp

text \<open>
  C9, amended. Let the stored pattern have a phase count of at most 20 (the catalog
  patterns have 9, 1 and 1). Then no execution reads \<^verbatim>\<open>phases\<close> out of bounds, and
  at every call of \<^verbatim>\<open>processAutonomousCycle\<close> (made by \<^verbatim>\<open>loop\<close> after the
  command of the pass) the phase index is below 20. A call that reaches the read, in
  \<^verbatim>\<open>STATE_CYCLING\<close>, leaves the index below \<open>max phaseCount 1\<close>; a call in any
  other state returns before the read and changes nothing. A load keeps the index, which
  may then exceed the new phase count: while cycling, the slot it points at is a zero slot
  of the catalog entry, so the next tick fires and wraps the index to 0.
\<close>

theorem phase_read_in_bounds:
  "unat (phaseCount stored) \<le> PHASE_CAPACITY
   \<longrightarrow> run (Returns (setup_fw stored)) evs \<noteq> OutOfBounds
     \<and> (run (Returns (setup_fw stored)) evs = Returns fw
         \<and> \<not> emergencyTriggered fw \<and> safety_pin_low inp
         \<and> processSerialCommand (millis_command inp) (serial_line inp)
               (fw\<lparr>safetyEngaged := safety_pin_low inp\<rparr>) = Returns fw1
        \<longrightarrow> loop inp fw = processAutonomousCycle (millis_tick inp) fw1
          \<and> unat (currentPhaseIndex fw1) < PHASE_CAPACITY
          \<and> unat (phaseCount (currentPattern fw1)) \<le> PHASE_CAPACITY
          \<and> (\<exists>fw2. processAutonomousCycle (millis_tick inp) fw1 = Returns fw2
                \<and> unat (currentPhaseIndex fw2) < PHASE_CAPACITY
                \<and> (currentState fw1 = STATE_CYCLING \<longrightarrow>
                     unat (currentPhaseIndex fw2) < max (unat (phaseCount (currentPattern fw2))) 1)
                \<and> (currentState fw1 \<noteq> STATE_CYCLING \<longrightarrow> fw2 = fw1)))"
proof (intro impI)
  assume "unat (phaseCount stored) \<le> PHASE_CAPACITY"
  then have ok0: "cursor_ok (setup_fw stored)" by (rule cursor_ok_setup)
  from cursor_ok_run [OF ok0, of "Returns (setup_fw stored)" evs]
  obtain g where g: "reached (run (Returns (setup_fw stored)) evs) = Some g" "cursor_ok g"
    by auto
  then have nb: "run (Returns (setup_fw stored)) evs \<noteq> OutOfBounds" by auto
  have call: "loop inp fw = processAutonomousCycle (millis_tick inp) fw1
          \<and> unat (currentPhaseIndex fw1) < PHASE_CAPACITY
          \<and> unat (phaseCount (currentPattern fw1)) \<le> PHASE_CAPACITY
          \<and> (\<exists>fw2. processAutonomousCycle (millis_tick inp) fw1 = Returns fw2
                \<and> unat (currentPhaseIndex fw2) < PHASE_CAPACITY
                \<and> (currentState fw1 = STATE_CYCLING \<longrightarrow>
                     unat (currentPhaseIndex fw2) < max (unat (phaseCount (currentPattern fw2))) 1)
                \<and> (currentState fw1 \<noteq> STATE_CYCLING \<longrightarrow> fw2 = fw1))"
    if h: "run (Returns (setup_fw stored)) evs = Returns fw
         \<and> \<not> emergencyTriggered fw \<and> safety_pin_low inp
         \<and> processSerialCommand (millis_command inp) (serial_line inp)
               (fw\<lparr>safetyEngaged := safety_pin_low inp\<rparr>) = Returns fw1"
  proof -
    let ?fw0 = "fw\<lparr>safetyEngaged := safety_pin_low inp\<rparr>"
    from h have h1: "run (Returns (setup_fw stored)) evs = Returns fw"
      and h2: "\<not> emergencyTriggered fw" and h3: "safety_pin_low inp"
      and h4: "processSerialCommand (millis_command inp) (serial_line inp) ?fw0 = Returns fw1"
      by blast+
    from h1 g have "cursor_ok fw" by simp
    then have ok: "cursor_ok ?fw0" by (auto intro: cursor_ok_cong)
    have ok1: "cursor_ok fw1"
    proof (cases "serial_line inp")
      case None
      with h4 have "fw1 = ?fw0" by (simp add: processSerialCommand_def)
      with ok show ?thesis by (simp only:)
    next
      case (Some line)
      with h4 have "reached (processCommand (millis_command inp) (trim line) ?fw0) = Some fw1"
        by (simp add: processSerialCommand_def)
      with ok show ?thesis by (rule cursor_ok_command)
    qed
    have l: "loop inp fw = processAutonomousCycle (millis_tick inp) fw1"
      using h2 h3 h4 by (simp add: loop_def Let_def)
    from cursor_ok_tick [OF ok1, of "millis_tick inp"] obtain fw2 where
      "processAutonomousCycle (millis_tick inp) fw1 = Returns fw2" "cursor_ok fw2"
      "currentState fw1 = STATE_CYCLING \<longrightarrow>
                unat (currentPhaseIndex fw2) < max (unat (phaseCount (currentPattern fw2))) 1"
      "currentState fw1 \<noteq> STATE_CYCLING \<longrightarrow> fw2 = fw1"
      by blast
    with ok1 l show ?thesis by (auto simp: cursor_ok_def)
  qed
  from nb call show "run (Returns (setup_fw stored)) evs \<noteq> OutOfBounds
     \<and> (run (Returns (setup_fw stored)) evs = Returns fw
         \<and> \<not> emergencyTriggered fw \<and> safety_pin_low inp
         \<and> processSerialCommand (millis_command inp) (serial_line inp)
               (fw\<lparr>safetyEngaged := safety_pin_low inp\<rparr>) = Returns fw1
        \<longrightarrow> loop inp fw = processAutonomousCycle (millis_tick inp) fw1
          \<and> unat (currentPhaseIndex fw1) < PHASE_CAPACITY
          \<and> unat (phaseCount (currentPattern fw1)) \<le> PHASE_CAPACITY
          \<and> (\<exists>fw2. processAutonomousCycle (millis_tick inp) fw1 = Returns fw2
                \<and> unat (currentPhaseIndex fw2) < PHASE_CAPACITY
                \<and> (currentState fw1 = STATE_CYCLING \<longrightarrow>
                     unat (currentPhaseIndex fw2) < max (unat (phaseCount (currentPattern fw2))) 1)
                \<and> (currentState fw1 \<noteq> STATE_CYCLING \<longrightarrow> fw2 = fw1)))"
    by blast
qed

theorem phase_read_witness:
  "unat (phaseCount (PROVEN_PATTERNS ! 0)) \<le> PHASE_CAPACITY
   \<and> run (Returns (setup_fw (PROVEN_PATTERNS ! 0))) first_cycle = Returns mid_cycle
   \<and> \<not> emergencyTriggered mid_cycle
   \<and> safety_pin_low (engaged_pass (Some ''LOAD_PATTERN:1'') 5451)
   \<and> processSerialCommand (millis_command (engaged_pass (Some ''LOAD_PATTERN:1'') 5451))
        (serial_line (engaged_pass (Some ''LOAD_PATTERN:1'') 5451))
        (mid_cycle\<lparr>safetyEngaged := safety_pin_low (engaged_pass (Some ''LOAD_PATTERN:1'') 5451)\<rparr>)
       = Returns (loadPatternCommand ''LOAD_PATTERN:1'' (mid_cycle\<lparr>safetyEngaged := True\<rparr>))
   \<and> currentState (loadPatternCommand ''LOAD_PATTERN:1'' (mid_cycle\<lparr>safetyEngaged := True\<rparr>))
       = STATE_CYCLING
   \<and> unat (currentPhaseIndex (loadPatternCommand ''LOAD_PATTERN:1''
         (mid_cycle\<lparr>safetyEngaged := True\<rparr>))) = 1
   \<and> unat (phaseCount (currentPattern (loadPatternCommand ''LOAD_PATTERN:1''
         (mid_cycle\<lparr>safetyEngaged := True\<rparr>)))) = 1
   \<and> (\<exists>fw2. processAutonomousCycle (millis_tick (engaged_pass (Some ''LOAD_PATTERN:1'') 5451))
          (loadPatternCommand ''LOAD_PATTERN:1'' (mid_cycle\<lparr>safetyEngaged := True\<rparr>)) = Returns fw2
        \<and> unat (currentPhaseIndex fw2) < max (unat (phaseCount (currentPattern fw2))) 1)"
proof -
  have a: "unat (phaseCount (PROVEN_PATTERNS ! 0)) \<le> PHASE_CAPACITY"
    by code_simp
  have b: "run (Returns (setup_fw (PROVEN_PATTERNS ! 0))) first_cycle = Returns mid_cycle
   \<and> \<not> emergencyTriggered mid_cycle
   \<and> safety_pin_low (engaged_pass (Some ''LOAD_PATTERN:1'') 5451)"
    by code_simp
  have c: "processSerialCommand (millis_command (engaged_pass (Some ''LOAD_PATTERN:1'') 5451))
        (serial_line (engaged_pass (Some ''LOAD_PATTERN:1'') 5451))
        (mid_cycle\<lparr>safetyEngaged := safety_pin_low (engaged_pass (Some ''LOAD_PATTERN:1'') 5451)\<rparr>)
       = Returns (loadPatternCommand ''LOAD_PATTERN:1'' (mid_cycle\<lparr>safetyEngaged := True\<rparr>))"
    by code_simp
  have d: "currentState (loadPatternCommand ''LOAD_PATTERN:1'' (mid_cycle\<lparr>safetyEngaged := True\<rparr>))
       = STATE_CYCLING
   \<and> unat (currentPhaseIndex (loadPatternCommand ''LOAD_PATTERN:1''
         (mid_cycle\<lparr>safetyEngaged := True\<rparr>))) = 1
   \<and> unat (phaseCount (currentPattern (loadPatternCommand ''LOAD_PATTERN:1''
         (mid_cycle\<lparr>safetyEngaged := True\<rparr>)))) = 1"
    by code_simp
  show ?thesis
    using a b c d
      phase_read_in_bounds [of "PROVEN_PATTERNS ! 0" first_cycle mid_cycle
        "engaged_pass (Some ''LOAD_PATTERN:1'') 5451"
        "loadPatternCommand ''LOAD_PATTERN:1'' (mid_cycle\<lparr>safetyEngaged := True\<rparr>)"]
    by blast
qed

section \<open>The state machine\<close>

lemma trim_wire [simp]: "trim (wire c) = wire c"
  by (cases c) (simp_all add: trim_def isspace_def)

lemma processCommand_wire:
  "\<exists>fw'. processCommand now (wire c) fw = Returns fw'
     \<and> currentState fw' = amended_table (currentState fw) c
     \<and> emergencyTriggered fw' = emergencyTriggered fw"
  by (cases c) (simp_all add: processCommand_def)

lemma command_pass_state:
  assumes "cursor_ok fw" and "\<not> emergencyTriggered fw"
  shows "\<exists>fw'. step (Returns fw) (command_pass ct) = Returns fw'
     \<and> currentState fw' = after_command amended_table (currentState fw) (fst ct)
     \<and> cursor_ok fw' \<and> \<not> emergencyTriggered fw'"
proof -
  let ?fw0 = "fw\<lparr>safetyEngaged := True\<rparr>"
  have ok: "cursor_ok ?fw0" using assms(1) by (auto intro: cursor_ok_cong)
  have "\<exists>g. processSerialCommand (snd ct) (map_option wire (fst ct)) ?fw0 = Returns g
      \<and> currentState g = after_command amended_table (currentState fw) (fst ct)
      \<and> cursor_ok g \<and> \<not> emergencyTriggered g"
  proof (cases "fst ct")
    case None
    with ok assms(2) show ?thesis by (simp add: processSerialCommand_def)
  next
    case (Some c)
    from processCommand_wire [of "snd ct" c ?fw0] obtain g where
      g: "processCommand (snd ct) (wire c) ?fw0 = Returns g"
      "currentState g = amended_table (currentState fw) c"
      "emergencyTriggered g = emergencyTriggered fw" by auto
    then have "reached (processCommand (snd ct) (wire c) ?fw0) = Some g" by simp
    with ok have "cursor_ok g" by (rule cursor_ok_command)
    with g Some assms(2) show ?thesis by (simp add: processSerialCommand_def)
  qed
  then obtain g where g: "processSerialCommand (snd ct) (map_option wire (fst ct)) ?fw0 = Returns g"
    "currentState g = after_command amended_table (currentState fw) (fst ct)"
    "cursor_ok g" "\<not> emergencyTriggered g" by blast
  from cursor_ok_tick [OF g(3), of "snd ct"] obtain fw' where
    "processAutonomousCycle (snd ct) g = Returns fw'" "cursor_ok fw'"
    "currentState fw' = currentState g" "emergencyTriggered fw' = emergencyTriggered g"
    by blast
  with g assms(2) show ?thesis
    by (simp add: command_pass_def engaged_pass_def loop_def Let_def)
qed

lemma replay_state:
  assumes "cursor_ok fw" and "\<not> emergencyTriggered fw"
  shows "\<exists>fw'. run (Returns fw) (map command_pass cts) = Returns fw'
     \<and> currentState fw' = foldl (after_command amended_table) (currentState fw) (map fst cts)"
  using assms
proof (induction cts arbitrary: fw)
  case Nil
  then show ?case by (simp add: run_def)
next
  case (Cons ct cts)
  from command_pass_state [OF Cons.prems, of ct] obtain g where
    g: "step (Returns fw) (command_pass ct) = Returns g"
    "currentState g = after_command amended_table (currentState fw) (fst ct)"
    "cursor_ok g" "\<not> emergencyTriggered g" by blast
  from Cons.IH [OF g(3,4)] g(1,2) show ?case by (simp add: run_def)
qed

text \<open>
  C3, as stated, has the state after a replay equal to the prediction of the table of
  section 4.2, and \<^verbatim>\<open>STOP_CYCLE\<close> switch the outputs off. From the initial state
  \<^verbatim>\<open>STOP_CYCLE\<close> alone gives \<^verbatim>\<open>STATE_ARMED\<close> where the table predicts
  \<^verbatim>\<open>STATE_IDLE\<close>; and in \<open>mid_cycle\<close>, \<^verbatim>\<open>STOP_CYCLE\<close> leaves the hat
  channel at duty 255.
\<close>

theorem stop_cycle_arms_from_idle:
  "system_state (run (Returns (setup_fw (PROVEN_PATTERNS ! 0)))
       (map command_pass [(Some STOP_CYCLE, 0)])) = Some STATE_ARMED
   \<and> foldl (after_command table_4_2) STATE_IDLE (map fst [(Some STOP_CYCLE, 0 :: u32)])
       = STATE_IDLE
   \<and> currentState mid_cycle = STATE_CYCLING
   \<and> level_of mid_cycle HAT_PIN = Pwm 255
   \<and> currentState (the (reached (processCommand 5460 ''STOP_CYCLE'' mid_cycle))) = STATE_ARMED
   \<and> level_of (the (reached (processCommand 5460 ''STOP_CYCLE'' mid_cycle))) HAT_PIN = Pwm 255"
  by code_simp

text \<open>
  C3, amended. For every finite sequence of passes with the interlock engaged and no
  emergency, each carrying one of the four commands or none, from the initial state with
  a stored pattern of at most 20 phases, the resulting state is the one predicted by
  \<open>amended_table\<close>: \<^verbatim>\<open>ARM\<close> gives \<^verbatim>\<open>STATE_ARMED\<close> from every state,
  \<^verbatim>\<open>DISARM\<close> gives \<^verbatim>\<open>STATE_IDLE\<close> from every state and switches all outputs
  off, \<^verbatim>\<open>STOP_CYCLE\<close> gives \<^verbatim>\<open>STATE_ARMED\<close> from every state, and
  \<^verbatim>\<open>START_CYCLE\<close> moves \<^verbatim>\<open>STATE_ARMED\<close> to \<^verbatim>\<open>STATE_CYCLING\<close> and leaves
  every other state unchanged.
\<close>

theorem replay_follows_amended_table:
  "(unat (phaseCount stored) \<le> PHASE_CAPACITY
     \<longrightarrow> system_state (run (Returns (setup_fw stored)) (map command_pass cts))
         = Some (foldl (after_command amended_table) STATE_IDLE (map fst cts)))
   \<and> (\<exists>fw'. processCommand now ''DISARM'' fw = Returns fw'
          \<and> currentState fw' = STATE_IDLE \<and> channels_off fw'
          \<and> level_of fw' RELAY_PIN = Digital False)"
proof (intro conjI impI)
  assume "unat (phaseCount stored) \<le> PHASE_CAPACITY"
  then have "cursor_ok (setup_fw stored)" by (rule cursor_ok_setup)
  moreover have "\<not> emergencyTriggered (setup_fw stored)"
    and "currentState (setup_fw stored) = STATE_IDLE"
    by (simp_all add: setup_fw_def)
  ultimately show "system_state (run (Returns (setup_fw stored)) (map command_pass cts))
         = Some (foldl (after_command amended_table) STATE_IDLE (map fst cts))"
    using replay_state [of "setup_fw stored" cts] by (auto simp: system_state_def)
next
  show "\<exists>fw'. processCommand now ''DISARM'' fw = Returns fw'
          \<and> currentState fw' = STATE_IDLE \<and> channels_off fw'
          \<and> level_of fw' RELAY_PIN = Digital False"
    by (simp add: processCommand_def channels_off_def allLEDsOff_def)
qed

theorem replay_witness:
  "unat (phaseCount (PROVEN_PATTERNS ! 0)) \<le> PHASE_CAPACITY
   \<and> system_state (run (Returns (setup_fw (PROVEN_PATTERNS ! 0)))
        (map command_pass [(Some ARM, 0), (Some START_CYCLE, 10), (None, 60), (Some ARM, 70),
                           (Some STOP_CYCLE, 80), (Some DISARM, 90), (Some STOP_CYCLE, 100)]))
       = Some STATE_ARMED"
proof -
  have a: "unat (phaseCount (PROVEN_PATTERNS ! 0)) \<le> PHASE_CAPACITY"
    by code_simp
  have b: "foldl (after_command amended_table) STATE_IDLE
      (map fst [(Some ARM, 0 :: u32), (Some START_CYCLE, 10), (None, 60), (Some ARM, 70),
                 (Some STOP_CYCLE, 80), (Some DISARM, 90), (Some STOP_CYCLE, 100)]) = STATE_ARMED"
    by code_simp
  show ?thesis
    using a b replay_follows_amended_table [of "PROVEN_PATTERNS ! 0"
      "[(Some ARM, 0), (Some START_CYCLE, 10), (None, 60), (Some ARM, 70),
        (Some STOP_CYCLE, 80), (Some DISARM, 90), (Some STOP_CYCLE, 100)]" 0 mid_cycle]
    by simp
qed

end
